theory Spec2Isabelle
  imports Complex_Main
begin

section \<open>Scalars and small fixed-size vectors\<close>

text \<open>
  \<^verbatim>\<open>Scalar\<close> (scalar.h) is the simulator's floating type. It is embedded as the real
  numbers: every arithmetic operation below is the exact operation, so the theorems are
  about the formulas the code evaluates, not about rounding.

  \<^verbatim>\<open>Eigen::Matrix<Scalar, 3, 1>\<close> and the three-element arrays are a three-component
  vector; only the indices 0, 1 and 2 are ever used by the loops of the source.
\<close>

type_synonym Scalar = real

datatype 'a vec3 = Vec3 'a 'a 'a

fun vget :: "'a vec3 \<Rightarrow> nat \<Rightarrow> 'a" where
  "vget (Vec3 a b c) n = (if n = 0 then a else if n = 1 then b else c)"

fun vset :: "'a vec3 \<Rightarrow> nat \<Rightarrow> 'a \<Rightarrow> 'a vec3" where
  "vset (Vec3 a b c) n x =
     (if n = 0 then Vec3 x b c else if n = 1 then Vec3 a x c else Vec3 a b x)"

fun vsum :: "Scalar vec3 \<Rightarrow> Scalar" where
  "vsum (Vec3 a b c) = a + b + c"

fun vdot :: "Scalar vec3 \<Rightarrow> Scalar vec3 \<Rightarrow> Scalar" where
  "vdot (Vec3 a b c) (Vec3 x y z) = a * x + b * y + c * z"

fun vscale :: "Scalar vec3 \<Rightarrow> Scalar \<Rightarrow> Scalar vec3" where
  "vscale (Vec3 a b c) k = Vec3 (a * k) (b * k) (c * k)"

fun vadd :: "Scalar vec3 \<Rightarrow> Scalar vec3 \<Rightarrow> Scalar vec3" where
  "vadd (Vec3 a b c) (Vec3 x y z) = Vec3 (a + x) (b + y) (c + z)"

text \<open>\<^verbatim>\<open>Eigen::Matrix<Scalar, 5, 1>\<close>: the five back-EMF harmonic coefficients.\<close>

datatype vec5 = Vec5 Scalar Scalar Scalar Scalar Scalar

fun list_of_vec5 :: "vec5 \<Rightarrow> Scalar list" where
  "list_of_vec5 (Vec5 a b c d e) = [a, b, c, d, e]"

text \<open>Modelled from the spec: \<^verbatim>\<open>kPI\<close> of pi.h, which is not among the sources; the
  spec writes the constant as \<open>\<pi>\<close>.\<close>

definition kPI :: Scalar where
  "kPI = pi"

text \<open>
  \<^verbatim>\<open>std::fmod\<close> of the C library: \<open>x - n * y\<close> where \<open>n\<close> is \<open>x / y\<close> with its
  fractional part cut off (rounded towards zero), so the result has the sign of \<open>x\<close>.
\<close>

definition trunc_toward_zero :: "real \<Rightarrow> int" where
  "trunc_toward_zero r = (if 0 \<le> r then \<lfloor>r\<rfloor> else \<lceil>r\<rceil>)"

definition fmod :: "Scalar \<Rightarrow> Scalar \<Rightarrow> Scalar" where
  "fmod x y = x - of_int (trunc_toward_zero (x / y)) * y"

section \<open>simulator.cpp: switch literals, back EMF and the integrator step\<close>

definition LOW :: int where "LOW = 0"
definition HIGH :: int where "HIGH = 1"
definition OFF :: int where "OFF = 2"

text \<open>
  \<^verbatim>\<open>SimParams\<close> and \<^verbatim>\<open>SimState\<close> are declared in headers that are not among the
  sources; the records hold exactly the fields that simulator.cpp reads and writes.
\<close>

record SimParams =
  dt :: Scalar
  bus_voltage :: Scalar
  i_diode_active :: Scalar
  v_diode_active :: Scalar
  normalized_bEmf_coeffs :: vec5
  phase_resistance :: Scalar
  phase_inductance :: Scalar
  inertia_rotor :: Scalar
  num_pole_pairs :: int
  step_multiplier :: int

record SimState =
  time :: Scalar
  switches :: "int vec3"
  i_coils :: "Scalar vec3"
  v_poles :: "Scalar vec3"
  bEmfs :: "Scalar vec3"
  v_neutral :: Scalar
  v_phases :: "Scalar vec3"
  torque :: Scalar
  angular_accel_rotor :: Scalar
  angular_vel_rotor :: Scalar
  angle_rotor :: Scalar
  angle_electrical :: Scalar

text \<open>Modelled from the spec: \<^verbatim>\<open>generate_odd_sine_series\<close> of sine_series.h, which is
  not among the sources. The spec: given \<open>n\<close> and an angle \<open>\<theta>\<close> it produces
  \<open>[sin \<theta>, sin 3\<theta>, sin 5\<theta>, \<dots>, sin (2n-1)\<theta>]\<close>.\<close>

definition generate_odd_sine_series :: "nat \<Rightarrow> Scalar \<Rightarrow> Scalar list" where
  "generate_odd_sine_series num_terms angle =
     map (\<lambda>k. sin (real (2 * k + 1) * angle)) [0..<num_terms]"

definition get_back_emf :: "vec5 \<Rightarrow> Scalar \<Rightarrow> Scalar" where
  "get_back_emf coeffs angle =
     (let sines = generate_odd_sine_series 5 angle
      in sum_list (map2 (*) sines (list_of_vec5 coeffs)))"

text \<open>
  \<^verbatim>\<open>printf("Unhandled switch case!"); exit(-1);\<close> ends the program: the step returns
  the diagnostic and the exit status instead of a state.
\<close>

datatype fatal = Fatal string int

text \<open>The body of the first loop of \<^verbatim>\<open>step\<close>, for one phase \<open>n\<close>.\<close>

definition apply_pole_voltage :: "SimParams \<Rightarrow> nat \<Rightarrow> SimState \<Rightarrow> fatal + SimState" where
  "apply_pole_voltage params n state =
     (if vget (switches state) n = OFF then
        (let state = (if vget (i_coils state) n > 0
                      then state\<lparr>v_poles := vset (v_poles state) n 0\<rparr>
                      else state\<lparr>v_poles := vset (v_poles state) n (bus_voltage params)\<rparr>);
             state = (if \<bar>vget (i_coils state) n\<bar> > i_diode_active params
                      then state\<lparr>v_poles := vset (v_poles state) n
                                    (vget (v_poles state) n - v_diode_active params)\<rparr>
                      else state)
         in Inr state)
      else if vget (switches state) n = HIGH then
        Inr (state\<lparr>v_poles := vset (v_poles state) n (bus_voltage params)\<rparr>)
      else if vget (switches state) n = LOW then
        Inr (state\<lparr>v_poles := vset (v_poles state) n 0\<rparr>)
      else Inl (Fatal ''Unhandled switch case!'' (- 1)))"

fun apply_pole_voltages :: "SimParams \<Rightarrow> nat list \<Rightarrow> SimState \<Rightarrow> fatal + SimState" where
  "apply_pole_voltages params [] state = Inr state"
| "apply_pole_voltages params (n # ns) state =
     (case apply_pole_voltage params n state of
        Inl e \<Rightarrow> Inl e
      | Inr state' \<Rightarrow> apply_pole_voltages params ns state')"

text \<open>
  Everything of \<^verbatim>\<open>step\<close> after the first loop; the three normalized back EMFs are
  returned with the state because the torque line reads them. \<^verbatim>\<open>di_dt\<close> is
  uninitialised in the source and every component is written before it is read.
\<close>

definition compute_normalized_bEmfs :: "SimParams \<Rightarrow> SimState \<Rightarrow> Scalar vec3" where
  "compute_normalized_bEmfs params state =
     Vec3 (get_back_emf (normalized_bEmf_coeffs params) (angle_electrical state))
          (get_back_emf (normalized_bEmf_coeffs params)
             (angle_electrical state + 2 * kPI / 3))
          (get_back_emf (normalized_bEmf_coeffs params)
             (angle_electrical state - 2 * kPI / 3))"

definition step_electrical :: "SimParams \<Rightarrow> SimState \<Rightarrow> SimState" where
  "step_electrical params state =
     (let normalized_bEmfs = compute_normalized_bEmfs params state;
          state = state\<lparr>bEmfs := vscale normalized_bEmfs (angular_vel_rotor state)\<rparr>;
          state = state\<lparr>v_neutral := (vsum (v_poles state) - vsum (bEmfs state)) / 3\<rparr>;
          state = fold (\<lambda>n st. st\<lparr>v_phases := vset (v_phases st) n
                                    (vget (v_poles st) n - v_neutral st)\<rparr>) [0, 1, 2] state;
          di_dt = fold (\<lambda>n d. vset d n
                     ((vget (v_phases state) n - vget (bEmfs state) n
                        - vget (i_coils state) n * phase_resistance params)
                      / phase_inductance params)) [0, 1, 2] (Vec3 0 0 0)
      in state\<lparr>i_coils := vadd (i_coils state) (vscale di_dt (dt params))\<rparr>)"

definition step_mechanical :: "SimParams \<Rightarrow> Scalar vec3 \<Rightarrow> SimState \<Rightarrow> SimState" where
  "step_mechanical params normalized_bEmfs state =
     (let state = state\<lparr>torque := vdot (i_coils state) normalized_bEmfs\<rparr>;
          state = state\<lparr>angular_accel_rotor := torque state / inertia_rotor params\<rparr>;
          state = state\<lparr>angular_vel_rotor :=
                    angular_vel_rotor state + angular_accel_rotor state * dt params\<rparr>;
          state = state\<lparr>angle_rotor := angle_rotor state + angular_vel_rotor state * dt params\<rparr>;
          state = state\<lparr>angle_rotor := fmod (angle_rotor state) (2 * kPI)\<rparr>;
          state = state\<lparr>angle_electrical :=
                    angle_rotor state * of_int (num_pole_pairs params)\<rparr>
      in state\<lparr>angle_electrical := fmod (angle_electrical state) (2 * kPI)\<rparr>)"

definition step :: "SimParams \<Rightarrow> SimState \<Rightarrow> fatal + SimState" where
  "step params state =
     (let state = state\<lparr>time := time state + dt params\<rparr>
      in case apply_pole_voltages params [0, 1, 2] state of
           Inl e \<Rightarrow> Inl e
         | Inr state \<Rightarrow>
             Inr (step_mechanical params (compute_normalized_bEmfs params state)
                    (step_electrical params state)))"

definition valid_switch :: "int \<Rightarrow> bool" where
  "valid_switch sw = (sw = LOW \<or> sw = HIGH \<or> sw = OFF)"

definition valid_switches :: "int vec3 \<Rightarrow> bool" where
  "valid_switches sws = (valid_switch (vget sws 0) \<and> valid_switch (vget sws 1)
                          \<and> valid_switch (vget sws 2))"

section \<open>simulator.cpp: the host loop of main\<close>

text \<open>
  \<^verbatim>\<open>run_gui\<close> may edit the parameters, the state and \<^verbatim>\<open>should_step\<close>; what it does
  in one frame depends on the operator and is an input of the model. A run of
  \<^verbatim>\<open>main\<close> whose event loop ends is described by the list of these effects, one for
  each frame before \<^verbatim>\<open>process_sdl_imgui_events\<close> reports the quit event.
  \<open>step_calls\<close> is not a variable of the program: it counts the invocations of
  \<^verbatim>\<open>step\<close>.
\<close>

type_synonym gui_effect = "SimParams \<times> SimState \<times> bool \<Rightarrow> SimParams \<times> SimState \<times> bool"

record Host =
  host_params :: SimParams
  host_state :: SimState
  should_step :: bool
  step_calls :: nat

text \<open>\<^verbatim>\<open>for (int i = 0; i < params.step_multiplier; ++i) step(params, &state);\<close> with
  the number of iterations as the first argument.\<close>

fun run_steps :: "nat \<Rightarrow> Host \<Rightarrow> fatal + Host" where
  "run_steps 0 h = Inr h"
| "run_steps (Suc k) h =
     (case step (host_params h) (host_state h) of
        Inl e \<Rightarrow> Inl e
      | Inr state' \<Rightarrow> run_steps k (h\<lparr>host_state := state', step_calls := Suc (step_calls h)\<rparr>))"

definition host_frame :: "gui_effect \<Rightarrow> Host \<Rightarrow> fatal + Host" where
  "host_frame run_gui h =
     (case run_gui (host_params h, host_state h, should_step h) of
        (params, state, b) \<Rightarrow>
          (let h = h\<lparr>host_params := params, host_state := state, should_step := b\<rparr>
           in if should_step h then run_steps (nat (step_multiplier (host_params h))) h
              else Inr h))"

fun host_loop :: "gui_effect list \<Rightarrow> Host \<Rightarrow> fatal + Host" where
  "host_loop [] h = Inr h"
| "host_loop (g # gs) h =
     (case host_frame g h of Inl e \<Rightarrow> Inl e | Inr h' \<Rightarrow> host_loop gs h')"

text \<open>
  \<^verbatim>\<open>main\<close>: \<open>sdl_status\<close> is \<^verbatim>\<open>sdl_context.status_\<close>, \<open>glad_loaded\<close> says that
  \<^verbatim>\<open>gladLoadGL()\<close> returned non-zero, \<open>params\<close> and \<open>state\<close> are what
  \<^verbatim>\<open>init_sim_params\<close> and \<^verbatim>\<open>init_sim_state\<close> (not among the sources) produce. The
  result is the return value of \<^verbatim>\<open>main\<close> with the final host state.
\<close>

definition main :: "int \<Rightarrow> bool \<Rightarrow> gui_effect list \<Rightarrow> SimParams \<Rightarrow> SimState \<Rightarrow> fatal + (int \<times> Host)" where
  "main sdl_status glad_loaded frames params state =
     (let h = \<lparr>host_params = params, host_state = state, should_step = False, step_calls = 0\<rparr>
      in if sdl_status \<noteq> 0 then Inr (- 1, h)
         else if \<not> glad_loaded then Inl (Fatal ''Failed to initialize OpenGL loader!\<newline>'' (- 1))
         else (case host_loop frames h of
                 Inl e \<Rightarrow> Inl e
               | Inr h \<Rightarrow> (case run_steps 1 h of Inl e \<Rightarrow> Inl e | Inr h \<Rightarrow> Inr (0, h))))"

definition calls_of :: "fatal + (int \<times> Host) \<Rightarrow> nat option" where
  "calls_of r = (case r of Inl e \<Rightarrow> None | Inr (rc, h) \<Rightarrow> Some (step_calls h))"

section \<open>The torque of the spec\<close>

text \<open>
  The total torque in the words of the spec, for comparison with the torque that
  \<^verbatim>\<open>step\<close> stores: electromagnetic torque plus the cogging torque looked up at the rotor
  angle minus the load torque. simulator.cpp has neither a cogging map nor a load torque,
  so both are arguments here.
\<close>

definition spec_total_torque :: "Scalar vec3 \<Rightarrow> Scalar vec3 \<Rightarrow> Scalar \<Rightarrow> Scalar \<Rightarrow> Scalar" where
  "spec_total_torque currents normed_bEmf_values cogging_torque load_torque =
     vdot currents normed_bEmf_values + cogging_torque - load_torque"

section \<open>util/clarke\_transform\<close>

text \<open>Modelled from the spec: \<^verbatim>\<open>clarke_transform\<close> of util/clarke_transform.cpp; only the
  header declaring \<^verbatim>\<open>kClarkeTransform2x3\<close> is among the sources. The spec: amplitude
  invariant, \<open>\<alpha> = (2a - b - c) / 3\<close>, \<open>\<beta> = (b - c) / \<surd>3\<close>, the output is the complex
  number \<open>\<alpha> + j\<beta>\<close>.\<close>

fun clarke_transform :: "Scalar vec3 \<Rightarrow> complex" where
  "clarke_transform (Vec3 a b c) = Complex ((2 * a - b - c) / 3) ((b - c) / sqrt 3)"

text \<open>Modelled from the spec: the inverse Clarke transform, which the spec names
  (\<open>inverse_clarke (clarke (a, b, c)) = (a, b, c)\<close> on balanced triples) without a formula
  and which is not among the sources. It is the linear map
  \<open>a = \<alpha>\<close>, \<open>b = -\<alpha>/2 + (\<surd>3/2) \<beta>\<close>, \<open>c = -\<alpha>/2 - (\<surd>3/2) \<beta>\<close>; lemma
  \<open>inverse_clarke_unique\<close> below shows that the spec's round-trip property leaves no
  other choice.\<close>

definition inverse_clarke :: "complex \<Rightarrow> Scalar vec3" where
  "inverse_clarke z =
     Vec3 (Re z) (- Re z / 2 + sqrt 3 / 2 * Im z) (- Re z / 2 - sqrt 3 / 2 * Im z)"

section \<open>gui.cpp: rolling buffers, power draw and the CSV export\<close>

text \<open>Modelled from the spec: the ring-buffer context of util/rolling_buffer.h, which is
  not among the sources. The spec: \<open>advance\<close> post-increments the write index and wraps
  at capacity, \<open>count\<close> is \<open>min (writes, capacity)\<close>, \<open>begin\<close> is the oldest valid
  index, \<open>back\<close> the newest.\<close>

record RollingBufferContext =
  next_idx :: nat
  writes :: nat
  capacity :: nat

definition rolling_buffer_advance_idx :: "RollingBufferContext \<Rightarrow> RollingBufferContext" where
  "rolling_buffer_advance_idx ctx =
     ctx\<lparr>next_idx := (if next_idx ctx + 1 = capacity ctx then 0 else next_idx ctx + 1),
         writes := writes ctx + 1\<rparr>"

definition get_rolling_buffer_count :: "RollingBufferContext \<Rightarrow> nat" where
  "get_rolling_buffer_count ctx = min (writes ctx) (capacity ctx)"

definition get_rolling_buffer_begin :: "RollingBufferContext \<Rightarrow> nat" where
  "get_rolling_buffer_begin ctx = (if writes ctx < capacity ctx then 0 else next_idx ctx)"

definition get_rolling_buffer_back :: "RollingBufferContext \<Rightarrow> nat" where
  "get_rolling_buffer_back ctx =
     (if next_idx ctx = 0 then capacity ctx - 1 else next_idx ctx - 1)"

text \<open>
  The structs of gui.cpp's arguments, with the fields that the modelled functions read.
  Their declarations are not among the sources. Fields whose names simulator.cpp's
  structs also use carry a prefix.
\<close>

record GateState =
  actual :: "int vec3"

record PwmState =
  duties :: "Scalar vec3"
  level :: Scalar

record BoardState =
  board_bus_voltage :: Scalar
  gate :: GateState
  pwm :: PwmState

record MotorKinematic =
  rotor_angular_vel :: Scalar
  motor_torque :: Scalar

record MotorElectrical =
  phase_currents :: "Scalar vec3"
  motor_bEmfs :: "Scalar vec3"
  normed_bEmfs :: "Scalar vec3"

record MotorState =
  kinematic :: MotorKinematic
  electrical :: MotorElectrical

record PiContext =
  err :: Scalar
  integral :: Scalar

record FocState =
  iq_controller :: PiContext
  id_controller :: PiContext

text \<open>
  \<^verbatim>\<open>RollingBuffers\<close>: one \<^verbatim>\<open>std::array<Scalar, kNumRollingPts>\<close> per channel, a list
  here. The channels \<^verbatim>\<open>phase_vs\<close>, \<^verbatim>\<open>current_q\<close> and \<^verbatim>\<open>current_d\<close> are left out:
  \<^verbatim>\<open>update_rolling_buffers\<close> fills them through helpers of motor.cpp, conversions.h
  and rotation.h, which are not among the sources, and nothing below reads them.
\<close>

record RollingBuffers =
  rb_ctx :: RollingBufferContext
  rb_timestamps :: "Scalar list"
  rb_phase_currents :: "Scalar list vec3"
  rb_bEmfs :: "Scalar list vec3"
  rb_normed_bEmfs :: "Scalar list vec3"
  rb_pwm_duties :: "Scalar list vec3"
  rb_pwm_level :: "Scalar list"
  rb_gate_states :: "Scalar list vec3"
  rb_current_q_err :: "Scalar list"
  rb_current_q_integral :: "Scalar list"
  rb_current_d_err :: "Scalar list"
  rb_current_d_integral :: "Scalar list"
  rb_power_draw :: "Scalar list"
  rb_rotor_angular_vel :: "Scalar list"
  rb_torque :: "Scalar list"

text \<open>Writing slot \<open>idx\<close> of the array of phase \<open>i\<close>.\<close>

definition vstore :: "Scalar list vec3 \<Rightarrow> nat \<Rightarrow> nat \<Rightarrow> Scalar \<Rightarrow> Scalar list vec3" where
  "vstore arrays i idx x = vset arrays i ((vget arrays i)[idx := x])"

text \<open>The body of the per-phase loop of \<^verbatim>\<open>update_rolling_buffers\<close>.\<close>

definition record_phase :: "BoardState \<Rightarrow> MotorState \<Rightarrow> FocState \<Rightarrow> nat \<Rightarrow> nat \<Rightarrow> RollingBuffers \<Rightarrow> RollingBuffers" where
  "record_phase board motor foc next i buffers =
     (let gate_state = (of_int (vget (actual (gate board)) i) :: Scalar);
          gate_state = (if gate_state = of_int OFF then - 0.5 else gate_state)
      in buffers\<lparr>
           rb_phase_currents := vstore (rb_phase_currents buffers) i next
                                  (vget (phase_currents (electrical motor)) i),
           rb_bEmfs := vstore (rb_bEmfs buffers) i next (vget (motor_bEmfs (electrical motor)) i),
           rb_normed_bEmfs := vstore (rb_normed_bEmfs buffers) i next
                                (vget (normed_bEmfs (electrical motor)) i),
           rb_pwm_duties := vstore (rb_pwm_duties buffers) i next (vget (duties (pwm board)) i),
           rb_pwm_level := (rb_pwm_level buffers)[next := level (pwm board)],
           rb_gate_states := vstore (rb_gate_states buffers) i next gate_state,
           rb_current_q_err := (rb_current_q_err buffers)[next := err (iq_controller foc)],
           rb_current_q_integral :=
             (rb_current_q_integral buffers)[next := integral (iq_controller foc)],
           rb_current_d_err := (rb_current_d_err buffers)[next := err (id_controller foc)],
           rb_current_d_integral :=
             (rb_current_d_integral buffers)[next := integral (id_controller foc)]\<rparr>)"

text \<open>The power loop: \<^verbatim>\<open>power_draw\<close> starts at 0 and grows by
  \<^verbatim>\<open>bus_voltage * phase_currents(i)\<close> for each phase whose actual gate is HIGH.\<close>

definition compute_power_draw :: "BoardState \<Rightarrow> MotorState \<Rightarrow> Scalar" where
  "compute_power_draw board motor =
     fold (\<lambda>i power_draw.
             if vget (actual (gate board)) i = HIGH
             then power_draw + board_bus_voltage board * vget (phase_currents (electrical motor)) i
             else power_draw) [0, 1, 2] 0"

definition update_rolling_buffers :: "Scalar \<Rightarrow> BoardState \<Rightarrow> MotorState \<Rightarrow> FocState \<Rightarrow> RollingBuffers \<Rightarrow> RollingBuffers" where
  "update_rolling_buffers t board motor foc buffers =
     (let next = next_idx (rb_ctx buffers);
          buffers = buffers\<lparr>rb_timestamps := (rb_timestamps buffers)[next := t]\<rparr>;
          buffers = fold (record_phase board motor foc next) [0, 1, 2] buffers;
          buffers = buffers\<lparr>rb_power_draw :=
                      (rb_power_draw buffers)[next := compute_power_draw board motor]\<rparr>;
          buffers = buffers\<lparr>rb_current_d_integral :=
                      (rb_current_d_integral buffers)[next := integral (id_controller foc)]\<rparr>;
          buffers = buffers\<lparr>rb_rotor_angular_vel :=
                      (rb_rotor_angular_vel buffers)[next := rotor_angular_vel (kinematic motor)]\<rparr>;
          buffers = buffers\<lparr>rb_torque := (rb_torque buffers)[next := motor_torque (kinematic motor)]\<rparr>
      in buffers\<lparr>rb_ctx := rolling_buffer_advance_idx (rb_ctx buffers)\<rparr>)"

text \<open>
  \<^verbatim>\<open>to_csv\<close>. \<open>fmt\<close> is the text that \<^verbatim>\<open>operator<<\<close> writes for a Scalar. Both loops
  over the columns write the separator after every column but the last.
\<close>

definition csv_fields :: "RollingBuffers \<Rightarrow> (string \<times> Scalar list) list" where
  "csv_fields rolling_buffers =
     [(''timestamp'', rb_timestamps rolling_buffers),
      (''torque'', rb_torque rolling_buffers),
      (''bEmf_a'', vget (rb_bEmfs rolling_buffers) 0),
      (''bEmf_b'', vget (rb_bEmfs rolling_buffers) 1),
      (''bEmf_c'', vget (rb_bEmfs rolling_buffers) 2),
      (''current_a'', vget (rb_phase_currents rolling_buffers) 0),
      (''current_b'', vget (rb_phase_currents rolling_buffers) 1),
      (''current_c'', vget (rb_phase_currents rolling_buffers) 2)]"

definition write_columns :: "(nat \<Rightarrow> string) \<Rightarrow> nat \<Rightarrow> string \<Rightarrow> string" where
  "write_columns cell num_cols ss =
     fold (\<lambda>col ss. (let ss = ss @ cell col
                      in if col + 1 \<noteq> num_cols then ss @ '','' else ss)) [0..<num_cols] ss"

definition to_csv :: "(Scalar \<Rightarrow> string) \<Rightarrow> RollingBuffers \<Rightarrow> string" where
  "to_csv fmt rolling_buffers =
     (let fields = csv_fields rolling_buffers;
          ss = write_columns (\<lambda>col. fst (fields ! col)) (length fields) [];
          ss = ss @ ''\<newline>'';
          num_rows = get_rolling_buffer_count (rb_ctx rolling_buffers)
      in fold (\<lambda>row ss. write_columns (\<lambda>col. fmt (snd (fields ! col) ! row)) (length fields) ss
                          @ ''\<newline>'') [0..<num_rows] ss)"

section \<open>gui.cpp: the random cogging torque map\<close>

text \<open>
  The branch of \<^verbatim>\<open>run_advanced_motor_config\<close> behind the button
  "Generate Random Cogging Torque Map". \<open>draws i\<close> is the value of the \<open>i\<close>-th call
  \<^verbatim>\<open>d(gen)\<close> of the normal distribution, \<open>p\<close> is \<^verbatim>\<open>motor.params.num_pole_pairs\<close> and
  \<open>map_size\<close> is \<^verbatim>\<open>cogging_torque_map.size()\<close>. The result is the new map together with the
  lines printed.
\<close>

definition fourier_frequencies :: "int \<Rightarrow> int list" where
  "fourier_frequencies p = [1, p, p * 2 + 1, p * 3 + 2, p * 7 + 3, p * 10 + 4]"

definition fourier_frequencies_scale :: "Scalar list" where
  "fourier_frequencies_scale = [0.5, 1.5, 1.0, 1.5, 0.5, 0.25]"

definition make_fourier_coeffs :: "(nat \<Rightarrow> Scalar) \<Rightarrow> Scalar list" where
  "make_fourier_coeffs draws =
     map (\<lambda>i. draws i * fourier_frequencies_scale ! (i div 2)) [0..<12]"

definition cogging_sample :: "Scalar list \<Rightarrow> int list \<Rightarrow> nat \<Rightarrow> nat \<Rightarrow> Scalar" where
  "cogging_sample fourier_coeffs freqs map_size i =
     (let progress = real i / real map_size
      in fold (\<lambda>n val.
                 (let k1 = fourier_coeffs ! (2 * n);
                      k2 = fourier_coeffs ! (2 * n + 1);
                      c = cos (progress * 2 * kPI * of_int (freqs ! n));
                      s = sin (progress * 2 * kPI * of_int (freqs ! n))
                  in val + (k1 * c + k2 * s))) [0..<6] 0)"

definition synthesize_cogging_map :: "(nat \<Rightarrow> Scalar) \<Rightarrow> int \<Rightarrow> nat \<Rightarrow> Scalar list" where
  "synthesize_cogging_map draws p map_size =
     map (cogging_sample (make_fourier_coeffs draws) (fourier_frequencies p) map_size) [0..<map_size]"

definition max_abs_of :: "Scalar list \<Rightarrow> Scalar" where
  "max_abs_of cogging_torque_map = fold (\<lambda>t max_abs. max max_abs \<bar>t\<bar>) cogging_torque_map 0"

definition rescale :: "Scalar list \<Rightarrow> Scalar list" where
  "rescale cogging_torque_map =
     (let max_abs = max_abs_of cogging_torque_map
      in map (\<lambda>t. t * (0.01 / max_abs)) cogging_torque_map)"

definition cogging_energy :: "Scalar list \<Rightarrow> Scalar" where
  "cogging_energy cogging_torque_map =
     (let energy = fold (\<lambda>t energy. energy + t) cogging_torque_map 0
      in energy * (2 * kPI / real (length cogging_torque_map)))"

definition energy_check :: "Scalar list \<Rightarrow> Scalar list \<times> string list" where
  "energy_check cogging_torque_map =
     (cogging_torque_map,
      if \<bar>cogging_energy cogging_torque_map\<bar> > 1 / 10 ^ 8
      then [''Energy conservation violated by cogging map\<newline>''] else [])"

definition generate_random_cogging_map :: "(nat \<Rightarrow> Scalar) \<Rightarrow> int \<Rightarrow> nat \<Rightarrow> Scalar list \<times> string list" where
  "generate_random_cogging_map draws p map_size =
     energy_check (rescale (synthesize_cogging_map draws p map_size))"

section \<open>Closed forms and concrete inputs used by the theorems\<close>

text \<open>
  What the first loop of \<^verbatim>\<open>step\<close> leaves in \<^verbatim>\<open>v_poles(n)\<close>, read off the switch
  statement; lemma \<open>apply_pole_voltages_closed_form\<close> proves that the loop computes it.
\<close>

definition pole_voltage :: "SimParams \<Rightarrow> SimState \<Rightarrow> nat \<Rightarrow> Scalar" where
  "pole_voltage params state n =
     (if vget (switches state) n = OFF then
        (if vget (i_coils state) n > 0 then 0 else bus_voltage params)
        - (if \<bar>vget (i_coils state) n\<bar> > i_diode_active params then v_diode_active params else 0)
      else if vget (switches state) n = HIGH then bus_voltage params
      else 0)"

text \<open>The current derivative of phase \<open>n\<close> as the third loop of \<^verbatim>\<open>step\<close> computes it, from
  the currents before the update and the voltages of the updated state.\<close>

definition di_dt_of :: "SimParams \<Rightarrow> SimState \<Rightarrow> SimState \<Rightarrow> nat \<Rightarrow> Scalar" where
  "di_dt_of params s s' n =
     (vget (v_phases s') n - vget (bEmfs s') n - vget (i_coils s) n * phase_resistance params)
       / phase_inductance params"

text \<open>The spec's total torque for the state \<open>state'\<close> that a step from \<open>state\<close> produced:
  the updated currents against the normalized back EMFs of the step.\<close>

definition spec_torque_after :: "SimParams \<Rightarrow> SimState \<Rightarrow> Scalar \<Rightarrow> Scalar \<Rightarrow> SimState \<Rightarrow> Scalar" where
  "spec_torque_after params state cogging_torque load_torque state' =
     spec_total_torque (i_coils state') (compute_normalized_bEmfs params state)
       cogging_torque load_torque"

definition params_a :: SimParams where
  "params_a = \<lparr>dt = 1, bus_voltage = 24, i_diode_active = 1 / 2, v_diode_active = 1,
                normalized_bEmf_coeffs = Vec5 (1 / 20) 0 0 0 0, phase_resistance = 1,
                phase_inductance = 1, inertia_rotor = 1, num_pole_pairs = 1,
                step_multiplier = 2\<rparr>"

definition state_a :: SimState where
  "state_a = \<lparr>time = 0, switches = Vec3 OFF LOW LOW, i_coils = Vec3 (- 1) 0 1,
               v_poles = Vec3 0 0 0, bEmfs = Vec3 0 0 0, v_neutral = 0,
               v_phases = Vec3 0 0 0, torque = 0, angular_accel_rotor = 0,
               angular_vel_rotor = 0, angle_rotor = 0, angle_electrical = 0\<rparr>"

definition state_bad :: SimState where
  "state_bad = state_a\<lparr>switches := Vec3 LOW 3 HIGH\<rparr>"

definition state_reverse :: SimState where
  "state_reverse = state_a\<lparr>switches := Vec3 LOW LOW LOW, i_coils := Vec3 0 0 0,
                           angular_vel_rotor := - 1\<rparr>"

text \<open>A frame in which the operator switches stepping on and edits nothing else, and the
  host state in which \<^verbatim>\<open>main\<close> enters its loop.\<close>

definition gui_enable_stepping :: gui_effect where
  "gui_enable_stepping = (\<lambda>(params, state, b). (params, state, True))"

definition host_a :: Host where
  "host_a = \<lparr>host_params = params_a, host_state = state_a, should_step = False, step_calls = 0\<rparr>"

text \<open>The text of one CSV row and of the header, for stating what \<^verbatim>\<open>to_csv\<close> writes.\<close>

definition csv_header :: string where
  "csv_header = ''timestamp,torque,bEmf_a,bEmf_b,bEmf_c,current_a,current_b,current_c\<newline>''"

definition csv_row :: "(Scalar \<Rightarrow> string) \<Rightarrow> RollingBuffers \<Rightarrow> nat \<Rightarrow> string" where
  "csv_row fmt b row =
     fmt (rb_timestamps b ! row) @ '','' @ fmt (rb_torque b ! row) @ '',''
     @ fmt (vget (rb_bEmfs b) 0 ! row) @ '','' @ fmt (vget (rb_bEmfs b) 1 ! row) @ '',''
     @ fmt (vget (rb_bEmfs b) 2 ! row) @ '','' @ fmt (vget (rb_phase_currents b) 0 ! row) @ '',''
     @ fmt (vget (rb_phase_currents b) 1 ! row) @ '','' @ fmt (vget (rb_phase_currents b) 2 ! row)
     @ ''\<newline>''"

text \<open>Buffers of capacity \<open>n\<close> before the first sample, and the inputs of a sample: bus
  voltage 24, gates HIGH, HIGH, OFF, phase currents 2, -1, -1, torque 5.\<close>

definition empty_buffers :: "nat \<Rightarrow> RollingBuffers" where
  "empty_buffers n =
     \<lparr>rb_ctx = \<lparr>next_idx = 0, writes = 0, capacity = n\<rparr>,
      rb_timestamps = replicate n 0,
      rb_phase_currents = Vec3 (replicate n 0) (replicate n 0) (replicate n 0),
      rb_bEmfs = Vec3 (replicate n 0) (replicate n 0) (replicate n 0),
      rb_normed_bEmfs = Vec3 (replicate n 0) (replicate n 0) (replicate n 0),
      rb_pwm_duties = Vec3 (replicate n 0) (replicate n 0) (replicate n 0),
      rb_pwm_level = replicate n 0,
      rb_gate_states = Vec3 (replicate n 0) (replicate n 0) (replicate n 0),
      rb_current_q_err = replicate n 0,
      rb_current_q_integral = replicate n 0,
      rb_current_d_err = replicate n 0,
      rb_current_d_integral = replicate n 0,
      rb_power_draw = replicate n 0,
      rb_rotor_angular_vel = replicate n 0,
      rb_torque = replicate n 0\<rparr>"

definition board_a :: BoardState where
  "board_a = \<lparr>board_bus_voltage = 24, gate = \<lparr>actual = Vec3 HIGH HIGH OFF\<rparr>,
               pwm = \<lparr>duties = Vec3 0 0 0, level = 0\<rparr>\<rparr>"

definition motor_a :: MotorState where
  "motor_a = \<lparr>kinematic = \<lparr>rotor_angular_vel = 0, motor_torque = 5\<rparr>,
               electrical = \<lparr>phase_currents = Vec3 2 (- 1) (- 1), motor_bEmfs = Vec3 0 0 0,
                              normed_bEmfs = Vec3 0 0 0\<rparr>\<rparr>"

definition foc_a :: FocState where
  "foc_a = \<lparr>iq_controller = \<lparr>err = 0, integral = 0\<rparr>,
             id_controller = \<lparr>err = 0, integral = 0\<rparr>\<rparr>"

text \<open>Three samples, at the times 1, 2 and 3, into buffers of capacity 2.\<close>

definition buffers_wrapped :: RollingBuffers where
  "buffers_wrapped =
     update_rolling_buffers 3 board_a motor_a foc_a
       (update_rolling_buffers 2 board_a motor_a foc_a
          (update_rolling_buffers 1 board_a motor_a foc_a (empty_buffers 2)))"

text \<open>Random draws of which only the first is not zero.\<close>

definition draws_a :: "nat \<Rightarrow> Scalar" where
  "draws_a i = (if i = 0 then 1 else 0)"

section \<open>Properties of the pole-voltage loop\<close>

lemma apply_pole_voltage_switches:
  "apply_pole_voltage params n state = Inr state' \<Longrightarrow> switches state' = switches state"
  by (auto simp: apply_pole_voltage_def Let_def split: if_splits)

lemma apply_pole_voltage_total:
  "valid_switch (vget (switches state) n) \<Longrightarrow> \<exists>state'. apply_pole_voltage params n state = Inr state'"
  by (auto simp: apply_pole_voltage_def valid_switch_def Let_def)

lemma apply_pole_voltage_fatal:
  "\<not> valid_switch (vget (switches state) n) \<Longrightarrow>
   apply_pole_voltage params n state = Inl (Fatal ''Unhandled switch case!'' (- 1))"
  by (simp add: apply_pole_voltage_def valid_switch_def)

lemma apply_pole_voltages_total:
  "\<forall>n \<in> set ns. valid_switch (vget (switches state) n) \<Longrightarrow>
   \<exists>state'. apply_pole_voltages params ns state = Inr state'"
proof (induction ns arbitrary: state)
  case Nil
  show ?case by simp
next
  case (Cons n ns)
  from Cons.prems obtain s1 where s1: "apply_pole_voltage params n state = Inr s1"
    using apply_pole_voltage_total [of state n params] by auto
  have "switches s1 = switches state"
    using s1 by (rule apply_pole_voltage_switches)
  with Cons.prems have "\<forall>m \<in> set ns. valid_switch (vget (switches s1) m)" by simp
  from Cons.IH [OF this] show ?case using s1 by simp
qed

lemma apply_pole_voltages_fatal:
  "\<exists>n \<in> set ns. \<not> valid_switch (vget (switches state) n) \<Longrightarrow>
   apply_pole_voltages params ns state = Inl (Fatal ''Unhandled switch case!'' (- 1))"
proof (induction ns arbitrary: state)
  case Nil
  then show ?case by simp
next
  case (Cons n ns)
  show ?case
  proof (cases "valid_switch (vget (switches state) n)")
    case False
    then show ?thesis by (simp add: apply_pole_voltage_fatal)
  next
    case True
    then obtain s1 where s1: "apply_pole_voltage params n state = Inr s1"
      using apply_pole_voltage_total [of state n params] by auto
    have sw: "switches s1 = switches state"
      using s1 by (rule apply_pole_voltage_switches)
    from Cons.prems True have "\<exists>m \<in> set ns. \<not> valid_switch (vget (switches state) m)"
      by auto
    with sw have "\<exists>m \<in> set ns. \<not> valid_switch (vget (switches s1) m)" by simp
    from Cons.IH [OF this] show ?thesis using s1 by simp
  qed
qed

section \<open>C6: the step is total exactly on valid gate states\<close>

text \<open>
  C6. When each of the three switch values is one of LOW, HIGH, OFF the step returns a
  state; when some switch value is outside that set the step is fatal: it prints
  \<^verbatim>\<open>Unhandled switch case!\<close> and exits with status -1.
\<close>

theorem step_total_iff_valid_switches:
  "(valid_switches (switches state) \<longrightarrow> (\<exists>state'. step params state = Inr state'))
   \<and> (\<not> valid_switches (switches state) \<longrightarrow>
        step params state = Inl (Fatal ''Unhandled switch case!'' (- 1)))"
proof (intro conjI impI)
  let ?s = "state\<lparr>time := time state + dt params\<rparr>"
  assume "valid_switches (switches state)"
  then have "\<forall>n \<in> set [0, 1, 2]. valid_switch (vget (switches ?s) n)"
    by (simp add: valid_switches_def)
  then obtain s1 where "apply_pole_voltages params [0, 1, 2] ?s = Inr s1"
    using apply_pole_voltages_total by blast
  then show "\<exists>state'. step params state = Inr state'"
    by (simp add: step_def Let_def)
next
  let ?s = "state\<lparr>time := time state + dt params\<rparr>"
  assume "\<not> valid_switches (switches state)"
  then have "\<exists>n \<in> set [0, 1, 2]. \<not> valid_switch (vget (switches ?s) n)"
    by (simp add: valid_switches_def)
  then have "apply_pole_voltages params [0, 1, 2] ?s = Inl (Fatal ''Unhandled switch case!'' (- 1))"
    by (rule apply_pole_voltages_fatal)
  then show "step params state = Inl (Fatal ''Unhandled switch case!'' (- 1))"
    by (simp add: step_def Let_def)
qed

section \<open>The step in closed form\<close>

lemma vget_vset: "n < 3 \<Longrightarrow> m < 3 \<Longrightarrow> vget (vset v n x) m = (if m = n then x else vget v m)"
  by (cases v) auto

lemma vget_vset_same [simp]: "vget (vset v n x) n = x"
  by (cases v) simp

lemma vset_vset_same [simp]: "vset (vset v n x) n y = vset v n y"
  by (cases v) simp

lemma apply_pole_voltage_closed_form:
  assumes "valid_switch (vget (switches state) n)"
  shows "apply_pole_voltage params n state =
     Inr (state\<lparr>v_poles := vset (v_poles state) n (pole_voltage params state n)\<rparr>)"
proof -
  consider "vget (switches state) n = OFF" | "vget (switches state) n = HIGH"
    | "vget (switches state) n = LOW"
    using assms by (auto simp: valid_switch_def)
  then show ?thesis
  proof cases
    case 1
    then show ?thesis
      by (simp add: apply_pole_voltage_def pole_voltage_def Let_def)
  next
    case 2
    then show ?thesis
      by (simp add: apply_pole_voltage_def pole_voltage_def HIGH_def OFF_def)
  next
    case 3
    then show ?thesis
      by (simp add: apply_pole_voltage_def pole_voltage_def HIGH_def OFF_def LOW_def)
  qed
qed

lemma pole_voltage_v_poles [simp]:
  "pole_voltage params (state\<lparr>v_poles := v\<rparr>) n = pole_voltage params state n"
  by (simp add: pole_voltage_def)

lemma apply_pole_voltages_closed_form:
  assumes "valid_switches (switches state)"
  shows "apply_pole_voltages params [0, 1, 2] state =
     Inr (state\<lparr>v_poles := Vec3 (pole_voltage params state 0) (pole_voltage params state 1)
                                (pole_voltage params state 2)\<rparr>)"
proof -
  from assms have v: "valid_switch (vget (switches state) 0)"
    "valid_switch (vget (switches state) 1)" "valid_switch (vget (switches state) 2)"
    by (simp_all add: valid_switches_def)
  obtain a b c where vp: "v_poles state = Vec3 a b c" by (cases "v_poles state")
  let ?s0 = "state\<lparr>v_poles := vset (v_poles state) 0 (pole_voltage params state 0)\<rparr>"
  let ?s1 = "?s0\<lparr>v_poles := vset (v_poles ?s0) 1 (pole_voltage params ?s0 1)\<rparr>"
  let ?s2 = "?s1\<lparr>v_poles := vset (v_poles ?s1) 2 (pole_voltage params ?s1 2)\<rparr>"
  have 0: "apply_pole_voltage params 0 state = Inr ?s0"
    using v(1) by (rule apply_pole_voltage_closed_form)
  have 1: "apply_pole_voltage params 1 ?s0 = Inr ?s1"
    by (rule apply_pole_voltage_closed_form) (use v(2) in simp)
  have 2: "apply_pole_voltage params 2 ?s1 = Inr ?s2"
    by (rule apply_pole_voltage_closed_form) (use v(3) in simp)
  have "apply_pole_voltages params [0, 1, 2] state = Inr ?s2"
    by (simp only: apply_pole_voltages.simps 0 1 2 sum.case)
  also have "?s2 = state\<lparr>v_poles := Vec3 (pole_voltage params state 0) (pole_voltage params state 1)
                                (pole_voltage params state 2)\<rparr>"
    by (simp add: vp)
  finally show ?thesis .
qed

lemma pole_voltage_time [simp]:
  "pole_voltage params (state\<lparr>time := t\<rparr>) n = pole_voltage params state n"
  by (simp add: pole_voltage_def)

lemma step_closed_form:
  assumes "valid_switches (switches state)"
  shows "step params state =
     Inr (step_mechanical params
            (compute_normalized_bEmfs params
               (state\<lparr>time := time state + dt params,
                      v_poles := Vec3 (pole_voltage params state 0) (pole_voltage params state 1)
                                   (pole_voltage params state 2)\<rparr>))
            (step_electrical params
               (state\<lparr>time := time state + dt params,
                      v_poles := Vec3 (pole_voltage params state 0) (pole_voltage params state 1)
                                   (pole_voltage params state 2)\<rparr>)))"
proof -
  let ?s = "state\<lparr>time := time state + dt params\<rparr>"
  from assms have "valid_switches (switches ?s)" by simp
  from apply_pole_voltages_closed_form [OF this, of params]
  show ?thesis unfolding step_def Let_def by simp
qed


lemma step_electrical_simple_fields [simp]:
  "time (step_electrical params s) = time s"
  "switches (step_electrical params s) = switches s"
  "v_poles (step_electrical params s) = v_poles s"
  "angular_vel_rotor (step_electrical params s) = angular_vel_rotor s"
  "angle_rotor (step_electrical params s) = angle_rotor s"
  "angle_electrical (step_electrical params s) = angle_electrical s"
  "bEmfs (step_electrical params s) = vscale (compute_normalized_bEmfs params s) (angular_vel_rotor s)"
  "v_neutral (step_electrical params s) =
     (vsum (v_poles s) - vsum (vscale (compute_normalized_bEmfs params s) (angular_vel_rotor s))) / 3"
  by (simp_all add: step_electrical_def Let_def)

lemma step_electrical_v_phases:
  "v_phases (step_electrical params s) =
     Vec3 (vget (v_poles s) 0 - v_neutral (step_electrical params s))
          (vget (v_poles s) 1 - v_neutral (step_electrical params s))
          (vget (v_poles s) 2 - v_neutral (step_electrical params s))"
  by (cases "v_phases s") (simp add: step_electrical_def Let_def)

lemma step_electrical_i_coils:
  "i_coils (step_electrical params s) =
     Vec3 (vget (i_coils s) 0 + di_dt_of params s (step_electrical params s) 0 * dt params)
          (vget (i_coils s) 1 + di_dt_of params s (step_electrical params s) 1 * dt params)
          (vget (i_coils s) 2 + di_dt_of params s (step_electrical params s) 2 * dt params)"
  by (cases "v_phases s"; cases "i_coils s")
     (simp add: step_electrical_def Let_def di_dt_of_def)

lemma step_mechanical_simple_fields [simp]:
  "time (step_mechanical params nb s) = time s"
  "switches (step_mechanical params nb s) = switches s"
  "v_poles (step_mechanical params nb s) = v_poles s"
  "bEmfs (step_mechanical params nb s) = bEmfs s"
  "v_neutral (step_mechanical params nb s) = v_neutral s"
  "v_phases (step_mechanical params nb s) = v_phases s"
  "i_coils (step_mechanical params nb s) = i_coils s"
  "torque (step_mechanical params nb s) = vdot (i_coils s) nb"
  "angular_accel_rotor (step_mechanical params nb s) = vdot (i_coils s) nb / inertia_rotor params"
  "angular_vel_rotor (step_mechanical params nb s) =
     angular_vel_rotor s + vdot (i_coils s) nb / inertia_rotor params * dt params"
  "angle_rotor (step_mechanical params nb s) =
     fmod (angle_rotor s
            + (angular_vel_rotor s + vdot (i_coils s) nb / inertia_rotor params * dt params)
              * dt params) (2 * kPI)"
  by (simp_all add: step_mechanical_def Let_def)

lemma step_mechanical_angle_electrical:
  "angle_electrical (step_mechanical params nb s) =
     fmod (angle_rotor (step_mechanical params nb s) * of_int (num_pole_pairs params)) (2 * kPI)"
  by (simp add: step_mechanical_def Let_def)


lemma vget_Vec3 [simp]:
  "vget (Vec3 a b c) 0 = a" "vget (Vec3 a b c) 1 = b" "vget (Vec3 a b c) 2 = c"
  by simp_all

lemma less_3_cases: "n < (3::nat) \<Longrightarrow> n = 0 \<or> n = 1 \<or> n = 2"
  by arith

section \<open>C2: the electrical update\<close>

text \<open>
  C2. On valid gate states one step returns a state in which, with the electrical angle
  \<open>\<theta>\<close>, the angular velocity \<open>\<omega>\<close> and the currents \<open>i\<close> of the state before the step:
  the pole voltages are those of the switch statement; the back EMF of phase \<open>n\<close> is
  \<open>get_back_emf (\<theta> + \<phi> n) * \<omega>\<close> with \<open>\<phi> = 0, 2\<pi>/3, -2\<pi>/3\<close>; the neutral voltage is
  (sum of pole voltages - sum of back EMFs) / 3; each phase voltage is the pole voltage
  minus the neutral voltage; each current is advanced by one explicit Euler step of
  \<open>di/dt = (v_phase - bEmf - R i) / L\<close>.
\<close>

theorem step_electrical_update:
  assumes "valid_switches (switches state)"
  shows "\<exists>state'. step params state = Inr state'
     \<and> (\<forall>n<3. vget (v_poles state') n = pole_voltage params state n)
     \<and> bEmfs state' =
         Vec3 (get_back_emf (normalized_bEmf_coeffs params) (angle_electrical state)
                 * angular_vel_rotor state)
              (get_back_emf (normalized_bEmf_coeffs params) (angle_electrical state + 2 * kPI / 3)
                 * angular_vel_rotor state)
              (get_back_emf (normalized_bEmf_coeffs params) (angle_electrical state - 2 * kPI / 3)
                 * angular_vel_rotor state)
     \<and> v_neutral state' = (vsum (v_poles state') - vsum (bEmfs state')) / 3
     \<and> (\<forall>n<3. vget (v_phases state') n = vget (v_poles state') n - v_neutral state')
     \<and> (\<forall>n<3. vget (i_coils state') n =
           vget (i_coils state) n
           + (vget (v_phases state') n - vget (bEmfs state') n
                - phase_resistance params * vget (i_coils state) n)
             / phase_inductance params * dt params)"
proof -
  let ?s1 = "state\<lparr>time := time state + dt params,
                    v_poles := Vec3 (pole_voltage params state 0) (pole_voltage params state 1)
                                 (pole_voltage params state 2)\<rparr>"
  let ?e = "step_electrical params ?s1"
  let ?s' = "step_mechanical params (compute_normalized_bEmfs params ?s1) ?e"
  have st: "step params state = Inr ?s'"
    using assms by (rule step_closed_form)
  have poles: "\<forall>n<3. vget (v_poles ?s') n = pole_voltage params state n"
    by (auto dest: less_3_cases)
  have emf: "bEmfs ?s' =
         Vec3 (get_back_emf (normalized_bEmf_coeffs params) (angle_electrical state)
                 * angular_vel_rotor state)
              (get_back_emf (normalized_bEmf_coeffs params) (angle_electrical state + 2 * kPI / 3)
                 * angular_vel_rotor state)
              (get_back_emf (normalized_bEmf_coeffs params) (angle_electrical state - 2 * kPI / 3)
                 * angular_vel_rotor state)"
    by (simp add: compute_normalized_bEmfs_def)
  have neutral: "v_neutral ?s' = (vsum (v_poles ?s') - vsum (bEmfs ?s')) / 3"
    by simp
  have phases: "\<forall>n<3. vget (v_phases ?s') n = vget (v_poles ?s') n - v_neutral ?s'"
    by (auto dest!: less_3_cases simp: step_electrical_v_phases)
  have currents: "\<forall>n<3. vget (i_coils ?s') n =
           vget (i_coils state) n
           + (vget (v_phases ?s') n - vget (bEmfs ?s') n
                - phase_resistance params * vget (i_coils state) n)
             / phase_inductance params * dt params"
    by (auto dest!: less_3_cases simp: step_electrical_i_coils di_dt_of_def mult.commute)
  from st poles emf neutral phases currents show ?thesis by blast
qed


lemma upt_5: "[0..<5] = [0, 1, 2, 3, 4]"
  by (simp add: upt_rec)

lemma get_back_emf_harmonics:
  "get_back_emf (Vec5 a1 a3 a5 a7 a9) angle =
     sin angle * a1 + sin (3 * angle) * a3 + sin (5 * angle) * a5 + sin (7 * angle) * a7
       + sin (9 * angle) * a9"
  by (simp add: get_back_emf_def generate_odd_sine_series_def upt_5)

lemma valid_state_a: "valid_switches (switches state_a)"
  by (simp add: state_a_def valid_switches_def valid_switch_def)

lemma valid_state_reverse: "valid_switches (switches state_reverse)"
  by (simp add: state_reverse_def state_a_def valid_switches_def valid_switch_def)

lemma not_valid_state_bad: "\<not> valid_switches (switches state_bad)"
  by (simp add: state_bad_def state_a_def valid_switches_def valid_switch_def LOW_def HIGH_def OFF_def)

lemma pole_voltage_state_a:
  "pole_voltage params_a state_a 0 = 23" "pole_voltage params_a state_a 1 = 0"
  "pole_voltage params_a state_a 2 = 0" "pole_voltage params_a state_a (Suc 0) = 0"
  by (simp_all add: pole_voltage_def params_a_def state_a_def LOW_def HIGH_def OFF_def)

section \<open>C1: pole voltage of a phase that is OFF\<close>

text \<open>What the switch statement does for a phase that is OFF, in general.\<close>

lemma pole_voltage_off:
  assumes "vget (switches state) n = OFF"
  shows "pole_voltage params state n =
     (if \<bar>vget (i_coils state) n\<bar> > i_diode_active params
      then (if vget (i_coils state) n > 0 then - v_diode_active params
            else bus_voltage params - v_diode_active params)
      else (if vget (i_coils state) n > 0 then 0 else bus_voltage params))"
  using assms by (simp add: pole_voltage_def)

text \<open>
  C1. With bus voltage 24, diode voltage 1 and diode threshold 1/2, phase 0 OFF and
  carrying the current -1, the step leaves 24 - 1 = 23 in \<^verbatim>\<open>v_poles(0)\<close>; the claim
  asks for bus voltage plus diode voltage, 25.
\<close>

theorem step_off_negative_current_pole_voltage:
  "map_sum id v_poles (step params_a state_a) = Inr (Vec3 23 0 0)
   \<and> bus_voltage params_a + v_diode_active params_a = 25"
  by (simp add: step_closed_form [OF valid_state_a] pole_voltage_state_a)
     (simp add: params_a_def)


section \<open>C4: the wrap of the rotor angle\<close>

lemma vsum_vget: "vsum v = vget v 0 + vget v 1 + vget v 2"
  by (cases v) simp

lemma sin_two_pi_thirds: "sin (2 * pi / 3) = sqrt 3 / 2"
proof -
  have "2 * pi / 3 = pi - pi / 3" by simp
  then show ?thesis by (simp only: sin_pi_minus sin_60)
qed

lemma normalized_bEmfs_params_a:
  "angle_electrical s = 0 \<Longrightarrow>
   compute_normalized_bEmfs params_a s = Vec3 0 (sqrt 3 / 40) (- (sqrt 3 / 40))"
  by (simp add: compute_normalized_bEmfs_def params_a_def get_back_emf_harmonics kPI_def
        sin_two_pi_thirds)

lemma trunc_small_negative:
  assumes "- 1 \<le> x" "x < 0" shows "trunc_toward_zero (x / (2 * pi)) = 0"
proof -
  have "- 1 < x / (2 * pi)" using pi_ge_two assms by (simp add: field_simps)
  moreover have "x / (2 * pi) < 0" using pi_gt_zero assms by (simp add: field_simps)
  ultimately show ?thesis
    unfolding trunc_toward_zero_def by (simp add: ceiling_eq_iff)
qed

lemma fmod_small_negative: "- 1 \<le> x \<Longrightarrow> x < 0 \<Longrightarrow> fmod x (2 * kPI) = x"
  using trunc_small_negative [of x] by (simp add: fmod_def kPI_def)

text \<open>For a non-negative angle the wrap does land in one revolution.\<close>

lemma fmod_nonneg_range:
  assumes "0 \<le> x" "0 < y"
  shows "0 \<le> fmod x y \<and> fmod x y < y"
proof -
  have q: "0 \<le> x / y" using assms by simp
  have "of_int \<lfloor>x / y\<rfloor> * y \<le> x / y * y"
    using assms(2) by (intro mult_right_mono) simp_all
  then have lo: "of_int \<lfloor>x / y\<rfloor> * y \<le> x"
    using assms(2) by simp
  have "x / y < of_int \<lfloor>x / y\<rfloor> + 1" by linarith
  then have "x / y * y < (of_int \<lfloor>x / y\<rfloor> + 1) * y"
    using assms(2) by (intro mult_strict_right_mono)
  then have hi: "x < (of_int \<lfloor>x / y\<rfloor> + 1) * y"
    using assms(2) by simp
  show ?thesis
    using lo hi q by (simp add: fmod_def trunc_toward_zero_def algebra_simps)
qed

lemma pole_voltage_state_reverse: "pole_voltage params_a state_reverse n = 0"
  by (simp add: pole_voltage_def params_a_def state_reverse_def state_a_def LOW_def HIGH_def OFF_def)

text \<open>
  C4. From rotor angle 0 with angular velocity -1 and \<open>dt = 1\<close> the step stores the
  rotor angle -797/800 and the electrical angle -797/800: \<^verbatim>\<open>std::fmod\<close> keeps the sign
  of a negative angle, so both lie below 0 and outside \<open>[0, 2\<pi>)\<close>.
\<close>

theorem step_reverse_rotation_negative_angle:
  "map_sum id angle_rotor (step params_a state_reverse) = Inr (- (797 / 800))
   \<and> map_sum id angle_electrical (step params_a state_reverse) = Inr (- (797 / 800))"
proof -
  let ?s1 = "state_reverse\<lparr>time := time state_reverse + dt params_a, v_poles := Vec3 0 0 0\<rparr>"
  let ?nb = "Vec3 0 (sqrt 3 / 40) (- (sqrt 3 / 40))"
  let ?e = "step_electrical params_a ?s1"
  have nb: "compute_normalized_bEmfs params_a ?s1 = ?nb"
    by (rule normalized_bEmfs_params_a) (simp add: state_reverse_def state_a_def)
  have st: "step params_a state_reverse = Inr (step_mechanical params_a ?nb ?e)"
    by (simp only: step_closed_form [OF valid_state_reverse] pole_voltage_state_reverse nb)
  have i: "i_coils ?e = ?nb"
    by (simp add: step_electrical_i_coils di_dt_of_def step_electrical_v_phases nb)
       (simp add: params_a_def state_reverse_def state_a_def)
  have tq: "vdot ?nb ?nb = 3 / 800"
    by (simp add: field_simps)
  have rot: "angle_rotor (step_mechanical params_a ?nb ?e) = fmod (- (797 / 800)) (2 * kPI)"
    by (simp add: i tq) (simp add: params_a_def state_reverse_def state_a_def)
  have rot': "angle_rotor (step_mechanical params_a ?nb ?e) = - (797 / 800)"
    unfolding rot by (rule fmod_small_negative) simp_all
  have "angle_electrical (step_mechanical params_a ?nb ?e) = fmod (- (797 / 800)) (2 * kPI)"
    unfolding step_mechanical_angle_electrical rot' by (simp add: params_a_def)
  also have "\<dots> = - (797 / 800)"
    by (rule fmod_small_negative) simp_all
  finally have el: "angle_electrical (step_mechanical params_a ?nb ?e) = - (797 / 800)" .
  show ?thesis by (simp only: st map_sum.simps rot' el id_apply simp_thms)
qed


section \<open>C6 and C2 at concrete inputs\<close>

theorem step_total_iff_valid_switches_witness:
  "valid_switches (switches state_a) \<and> (\<exists>state'. step params_a state_a = Inr state')
   \<and> \<not> valid_switches (switches state_bad)
   \<and> step params_a state_bad = Inl (Fatal ''Unhandled switch case!'' (- 1))"
  using step_total_iff_valid_switches [of state_a params_a]
        step_total_iff_valid_switches [of state_bad params_a]
        valid_state_a not_valid_state_bad
  by blast

theorem step_electrical_update_witness:
  "valid_switches (switches state_a)
   \<and> (\<exists>state'. step params_a state_a = Inr state' \<and> bEmfs state' = Vec3 0 0 0
         \<and> v_neutral state' = 23 / 3 \<and> vget (v_phases state') 0 = 46 / 3
         \<and> vget (i_coils state') 0 = 46 / 3)"
proof -
  from step_electrical_update [OF valid_state_a, of params_a]
  obtain s' where st: "step params_a state_a = Inr s'"
    and poles: "\<forall>n<3. vget (v_poles s') n = pole_voltage params_a state_a n"
    and emf: "bEmfs s' =
         Vec3 (get_back_emf (normalized_bEmf_coeffs params_a) (angle_electrical state_a)
                 * angular_vel_rotor state_a)
              (get_back_emf (normalized_bEmf_coeffs params_a) (angle_electrical state_a + 2 * kPI / 3)
                 * angular_vel_rotor state_a)
              (get_back_emf (normalized_bEmf_coeffs params_a) (angle_electrical state_a - 2 * kPI / 3)
                 * angular_vel_rotor state_a)"
    and neutral: "v_neutral s' = (vsum (v_poles s') - vsum (bEmfs s')) / 3"
    and phases: "\<forall>n<3. vget (v_phases s') n = vget (v_poles s') n - v_neutral s'"
    and currents: "\<forall>n<3. vget (i_coils s') n =
           vget (i_coils state_a) n
           + (vget (v_phases s') n - vget (bEmfs s') n
                - phase_resistance params_a * vget (i_coils state_a) n)
             / phase_inductance params_a * dt params_a"
    by blast
  have e0: "bEmfs s' = Vec3 0 0 0"
    using emf by (simp add: state_a_def)
  have p: "vget (v_poles s') 0 = 23" "vget (v_poles s') 1 = 0" "vget (v_poles s') 2 = 0"
    using poles by (simp_all add: pole_voltage_state_a)
  have n: "v_neutral s' = 23 / 3"
    unfolding neutral vsum_vget [of "v_poles s'"] p e0 by simp
  have ph: "vget (v_phases s') 0 = 46 / 3"
    using phases p n by simp
  have "vget (i_coils s') 0 =
           vget (i_coils state_a) 0
           + (vget (v_phases s') 0 - vget (bEmfs s') 0
                - phase_resistance params_a * vget (i_coils state_a) 0)
             / phase_inductance params_a * dt params_a"
    using currents by simp
  then have i: "vget (i_coils s') 0 = 46 / 3"
    unfolding ph e0 by (simp add: params_a_def state_a_def)
  from st e0 n ph i valid_state_a show ?thesis by blast
qed

section \<open>C3: the stored torque\<close>

lemma compute_normalized_bEmfs_cong [simp]:
  "compute_normalized_bEmfs params (state\<lparr>time := t, v_poles := v\<rparr>) =
   compute_normalized_bEmfs params state"
  by (simp add: compute_normalized_bEmfs_def)

lemma step_torque_closed_form:
  assumes "valid_switches (switches state)"
  shows "\<exists>state'. step params state = Inr state'
     \<and> torque state' = vdot (i_coils state') (compute_normalized_bEmfs params state)"
  by (simp add: step_closed_form [OF assms])

text \<open>
  C3 (amended). On valid gate states the torque that a step stores is the
  electromagnetic torque alone: the sum over the phases of the updated current times the
  normalized back EMF at the electrical angle the step started from. This is the spec's
  total torque with cogging torque 0 and load torque 0; \<^verbatim>\<open>step\<close> reads no cogging map
  and no load torque.
\<close>

theorem step_torque_is_electromagnetic:
  assumes "valid_switches (switches state)"
  shows "\<exists>state'. step params state = Inr state'
     \<and> torque state' =
         vdot (i_coils state')
           (Vec3 (get_back_emf (normalized_bEmf_coeffs params) (angle_electrical state))
                 (get_back_emf (normalized_bEmf_coeffs params)
                    (angle_electrical state + 2 * kPI / 3))
                 (get_back_emf (normalized_bEmf_coeffs params)
                    (angle_electrical state - 2 * kPI / 3)))
     \<and> torque state' = spec_torque_after params state 0 0 state'"
  using step_torque_closed_form [OF assms, of params]
  by (auto simp: spec_torque_after_def spec_total_torque_def compute_normalized_bEmfs_def)

theorem step_torque_is_electromagnetic_witness:
  "valid_switches (switches state_a)
   \<and> (\<exists>state'. step params_a state_a = Inr state'
         \<and> torque state' = vdot (i_coils state') (Vec3 0 (sqrt 3 / 40) (- (sqrt 3 / 40))))"
proof -
  have nb: "Vec3 (get_back_emf (normalized_bEmf_coeffs params_a) (angle_electrical state_a))
                 (get_back_emf (normalized_bEmf_coeffs params_a)
                    (angle_electrical state_a + 2 * kPI / 3))
                 (get_back_emf (normalized_bEmf_coeffs params_a)
                    (angle_electrical state_a - 2 * kPI / 3))
            = Vec3 0 (sqrt 3 / 40) (- (sqrt 3 / 40))"
    using normalized_bEmfs_params_a [of state_a]
    by (simp only: compute_normalized_bEmfs_def) (simp add: state_a_def)
  from step_torque_is_electromagnetic [OF valid_state_a, of params_a]
  show ?thesis unfolding nb using valid_state_a by blast
qed

text \<open>
  C3 as stated fails: with cogging torque 0 and load torque 1 the torque stored by the
  step from \<open>state_a\<close> is not the spec's total torque.
\<close>

theorem step_torque_ignores_load_counterexample:
  "map_sum id torque (step params_a state_a)
     \<noteq> map_sum id (spec_torque_after params_a state_a 0 1) (step params_a state_a)"
proof -
  from step_torque_closed_form [OF valid_state_a, of params_a]
  obtain s' where "step params_a state_a = Inr s'"
    and "torque s' = vdot (i_coils s') (compute_normalized_bEmfs params_a state_a)"
    by blast
  then show ?thesis
    by (simp add: spec_torque_after_def spec_total_torque_def)
qed

section \<open>C7: time and the invocations of the step\<close>

lemma step_time_closed_form:
  assumes "valid_switches (switches state)"
  shows "\<exists>state'. step params state = Inr state' \<and> time state' = time state + dt params
           \<and> switches state' = switches state"
  by (simp add: step_closed_form [OF assms])

lemma run_steps_advance:
  "valid_switches (switches (host_state h)) \<Longrightarrow>
   \<exists>h'. run_steps k h = Inr h'
        \<and> time (host_state h') = time (host_state h) + real k * dt (host_params h)
        \<and> step_calls h' = step_calls h + k
        \<and> host_params h' = host_params h
        \<and> should_step h' = should_step h
        \<and> switches (host_state h') = switches (host_state h)"
proof (induction k arbitrary: h)
  case 0
  show ?case by simp
next
  case (Suc k)
  from step_time_closed_form [OF Suc.prems, of "host_params h"]
  obtain s' where s': "step (host_params h) (host_state h) = Inr s'"
    "time s' = time (host_state h) + dt (host_params h)"
    "switches s' = switches (host_state h)"
    by blast
  let ?h1 = "h\<lparr>host_state := s', step_calls := Suc (step_calls h)\<rparr>"
  have "valid_switches (switches (host_state ?h1))"
    using Suc.prems s'(3) by simp
  from Suc.IH [OF this] obtain h' where h': "run_steps k ?h1 = Inr h'"
    "time (host_state h') = time (host_state ?h1) + real k * dt (host_params ?h1)"
    "step_calls h' = step_calls ?h1 + k"
    "host_params h' = host_params ?h1"
    "should_step h' = should_step ?h1"
    "switches (host_state h') = switches (host_state ?h1)"
    by blast
  have "run_steps (Suc k) h = Inr h'"
    using s'(1) h'(1) by simp
  moreover have "time (host_state h') = time (host_state h) + real (Suc k) * dt (host_params h)"
    using h'(2) s'(2) by (simp add: algebra_simps)
  ultimately show ?case
    using h'(3-6) s'(3) by simp
qed

lemma host_frame_calls:
  assumes gui: "run_gui (host_params h, host_state h, should_step h) = (params, state, b)"
    and valid: "valid_switches (switches state)"
  shows "\<exists>h'. host_frame run_gui h = Inr h'
        \<and> step_calls h' = step_calls h + (if b then nat (step_multiplier params) else 0)
        \<and> time (host_state h') =
            time state + (if b then real (nat (step_multiplier params)) * dt params else 0)
        \<and> switches (host_state h') = switches state"
proof (cases b)
  case False
  then show ?thesis by (simp add: host_frame_def gui)
next
  case True
  let ?h1 = "h\<lparr>host_params := params, host_state := state, should_step := b\<rparr>"
  have "valid_switches (switches (host_state ?h1))" using valid by simp
  from run_steps_advance [OF this, of "nat (step_multiplier params)"]
  obtain h' where "run_steps (nat (step_multiplier params)) ?h1 = Inr h'"
    "time (host_state h') = time (host_state ?h1) + real (nat (step_multiplier params)) * dt (host_params ?h1)"
    "step_calls h' = step_calls ?h1 + nat (step_multiplier params)"
    "switches (host_state h') = switches (host_state ?h1)"
    by blast
  then show ?thesis using True by (simp add: host_frame_def gui)
qed

lemma main_final_step:
  assumes loop: "host_loop frames
            \<lparr>host_params = params, host_state = state, should_step = False, step_calls = 0\<rparr>
          = Inr h1"
    and valid: "valid_switches (switches (host_state h1))"
  shows "\<exists>h2. main 0 True frames params state = Inr (0, h2)
           \<and> step_calls h2 = step_calls h1 + 1
           \<and> time (host_state h2) = time (host_state h1) + dt (host_params h1)"
proof -
  from run_steps_advance [OF valid, of 1]
  obtain h2 where "run_steps 1 h1 = Inr h2"
    "time (host_state h2) = time (host_state h1) + real 1 * dt (host_params h1)"
    "step_calls h2 = step_calls h1 + 1"
    by blast
  then show ?thesis
    by (simp add: main_def loop)
qed

text \<open>
  C7 (amended). On valid gate states: a step advances the time by exactly \<open>dt\<close>, and
  \<open>k\<close> steps in a row advance it by \<open>k * dt\<close> with \<open>k\<close> invocations; a host frame
  invokes the step \<open>step_multiplier\<close> times (not at all when that is not positive) when
  stepping is enabled after \<^verbatim>\<open>run_gui\<close>, and never when it is disabled; once the event
  loop has ended, \<^verbatim>\<open>main\<close> invokes the step one more time before it returns 0.
\<close>

theorem host_step_invocations:
  "(valid_switches (switches s) \<longrightarrow>
      (\<exists>s'. step p s = Inr s' \<and> time s' = time s + dt p))
   \<and> (valid_switches (switches (host_state h)) \<longrightarrow>
      (\<exists>h'. run_steps k h = Inr h'
         \<and> time (host_state h') = time (host_state h) + real k * dt (host_params h)
         \<and> step_calls h' = step_calls h + k))
   \<and> (run_gui (host_params h, host_state h, should_step h) = (params, state, b)
        \<and> valid_switches (switches state) \<longrightarrow>
      (\<exists>h'. host_frame run_gui h = Inr h'
         \<and> step_calls h' = step_calls h + (if b then nat (step_multiplier params) else 0)
         \<and> switches (host_state h') = switches state))
   \<and> (host_loop frames
         \<lparr>host_params = params0, host_state = state0, should_step = False, step_calls = 0\<rparr>
         = Inr h1
        \<and> valid_switches (switches (host_state h1)) \<longrightarrow>
      (\<exists>h2. main 0 True frames params0 state0 = Inr (0, h2)
         \<and> step_calls h2 = step_calls h1 + 1))"
proof (intro conjI impI)
  assume "valid_switches (switches s)"
  from step_time_closed_form [OF this, of p]
  show "\<exists>s'. step p s = Inr s' \<and> time s' = time s + dt p"
    by blast
next
  assume "valid_switches (switches (host_state h))"
  from run_steps_advance [OF this, of k]
  show "\<exists>h'. run_steps k h = Inr h'
         \<and> time (host_state h') = time (host_state h) + real k * dt (host_params h)
         \<and> step_calls h' = step_calls h + k"
    by blast
next
  assume "run_gui (host_params h, host_state h, should_step h) = (params, state, b)
        \<and> valid_switches (switches state)"
  then have a: "run_gui (host_params h, host_state h, should_step h) = (params, state, b)"
    and b: "valid_switches (switches state)" by simp_all
  from host_frame_calls [of run_gui h params state b, OF a b]
  show "\<exists>h'. host_frame run_gui h = Inr h'
         \<and> step_calls h' = step_calls h + (if b then nat (step_multiplier params) else 0)
         \<and> switches (host_state h') = switches state"
    by blast
next
  assume "host_loop frames
         \<lparr>host_params = params0, host_state = state0, should_step = False, step_calls = 0\<rparr>
         = Inr h1
        \<and> valid_switches (switches (host_state h1))"
  then have a: "host_loop frames
         \<lparr>host_params = params0, host_state = state0, should_step = False, step_calls = 0\<rparr>
         = Inr h1"
    and b: "valid_switches (switches (host_state h1))" by simp_all
  from main_final_step [OF a b]
  show "\<exists>h2. main 0 True frames params0 state0 = Inr (0, h2)
         \<and> step_calls h2 = step_calls h1 + 1"
    by blast
qed

lemma valid_host_a: "valid_switches (switches (host_state host_a))"
  by (simp add: host_a_def valid_state_a)

theorem host_step_invocations_witness:
  "valid_switches (switches (host_state host_a))
   \<and> (\<exists>s'. step params_a state_a = Inr s' \<and> time s' = 1)
   \<and> (\<exists>h'. run_steps 2 host_a = Inr h' \<and> time (host_state h') = 2 \<and> step_calls h' = 2)
   \<and> (\<exists>h'. host_frame gui_enable_stepping host_a = Inr h' \<and> step_calls h' = 2)
   \<and> (\<exists>h2. main 0 True [gui_enable_stepping] params_a state_a = Inr (0, h2)
          \<and> step_calls h2 = 3)"
proof -
  have gui: "gui_enable_stepping (host_params host_a, host_state host_a, should_step host_a)
               = (params_a, state_a, True)"
    by (simp add: gui_enable_stepping_def host_a_def)
  from host_step_invocations [where h = host_a and k = 2, THEN conjunct2, THEN conjunct1]
    valid_host_a
  obtain h0 where "run_steps 2 host_a = Inr h0"
    "time (host_state h0) = time (host_state host_a) + real 2 * dt (host_params host_a)"
    "step_calls h0 = step_calls host_a + 2"
    by blast
  then have 1: "\<exists>h'. run_steps 2 host_a = Inr h' \<and> time (host_state h') = 2 \<and> step_calls h' = 2"
    by (simp add: host_a_def params_a_def state_a_def)
  from host_step_invocations [where h = host_a and run_gui = gui_enable_stepping
        and params = params_a and state = state_a and b = True,
        THEN conjunct2, THEN conjunct2, THEN conjunct1]
    gui valid_state_a
  obtain h1 where h1: "host_frame gui_enable_stepping host_a = Inr h1"
    "step_calls h1 = step_calls host_a + (if True then nat (step_multiplier params_a) else 0)"
    "switches (host_state h1) = switches state_a"
    by blast
  have c1: "step_calls h1 = 2"
    using h1(2) by (simp add: host_a_def params_a_def)
  have loop: "host_loop [gui_enable_stepping]
         \<lparr>host_params = params_a, host_state = state_a, should_step = False, step_calls = 0\<rparr>
         = Inr h1"
    using h1(1) by (simp add: host_a_def)
  have v1: "valid_switches (switches (host_state h1))"
    using h1(3) valid_state_a by simp
  from host_step_invocations [where frames = "[gui_enable_stepping]" and ?params0.0 = params_a
        and ?state0.0 = state_a and ?h1.0 = h1,
        THEN conjunct2, THEN conjunct2, THEN conjunct2] loop v1
  obtain h2 where "main 0 True [gui_enable_stepping] params_a state_a = Inr (0, h2)"
    "step_calls h2 = step_calls h1 + 1"
    by blast
  with c1 have 3: "\<exists>h2. main 0 True [gui_enable_stepping] params_a state_a = Inr (0, h2)
          \<and> step_calls h2 = 3"
    by simp
  from host_step_invocations [where s = state_a and p = params_a, THEN conjunct1] valid_state_a
  have 0: "\<exists>s'. step params_a state_a = Inr s' \<and> time s' = 1"
    by (simp add: params_a_def state_a_def)
  from 0 1 h1(1) c1 3 valid_host_a show ?thesis by blast
qed

text \<open>
  C7 as stated fails: in a run that quits before its first frame no frame had stepping
  enabled, and the step has been invoked once when \<^verbatim>\<open>main\<close> returns.
\<close>

theorem main_steps_after_loop_counterexample:
  "calls_of (main 0 True [] params_a state_a) = Some 1"
proof -
  have "host_loop [] host_a = Inr host_a" by simp
  from main_final_step [OF this [unfolded host_a_def], of ] valid_host_a
  obtain h2 where "main 0 True [] params_a state_a = Inr (0, h2)" "step_calls h2 = step_calls host_a + 1"
    by (auto simp: host_a_def)
  then show ?thesis by (simp add: calls_of_def host_a_def)
qed

section \<open>C9: the Clarke round trip\<close>

lemma clarke_inverse_clarke: "clarke_transform (inverse_clarke z) = z"
proof -
  have "sqrt 3 * sqrt 3 = 3" by simp
  then have "(sqrt 3 * Im z) / sqrt 3 = Im z" by simp
  then show ?thesis
    by (simp add: inverse_clarke_def complex_eq_iff field_simps)
qed

lemma inverse_clarke_balanced: "vsum (inverse_clarke z) = 0"
  by (simp add: inverse_clarke_def)

text \<open>
  C9. For every triple \<open>(a, b, c)\<close> with \<open>a + b + c = 0\<close> the inverse Clarke transform
  of the Clarke transform \<open>((2a - b - c) / 3, (b - c) / \<surd>3)\<close> is \<open>(a, b, c)\<close> again.
\<close>

theorem clarke_round_trip:
  assumes "a + b + c = 0"
  shows "inverse_clarke (clarke_transform (Vec3 a b c)) = Vec3 a b c"
proof -
  have a: "a = - b - c" using assms by simp
  have s: "sqrt 3 * ((b - c) / sqrt 3) = b - c" by simp
  have "sqrt 3 / 2 * ((b - c) / sqrt 3) = (b - c) / 2"
    using s by (simp add: field_simps)
  then show ?thesis
    unfolding inverse_clarke_def clarke_transform.simps complex.sel a
    by (simp add: field_simps)
qed

theorem clarke_round_trip_witness:
  "(1::real) + 2 + (- 3) = 0
   \<and> inverse_clarke (clarke_transform (Vec3 1 2 (- 3))) = Vec3 1 2 (- 3)"
  using clarke_round_trip [of 1 2 "- 3"] by simp

text \<open>Any map that satisfies the round trip on balanced triples is \<open>inverse_clarke\<close>.\<close>

lemma inverse_clarke_unique:
  assumes "\<And>a b c. a + b + c = 0 \<Longrightarrow> g (clarke_transform (Vec3 a b c)) = Vec3 a b c"
  shows "g z = inverse_clarke z"
proof -
  obtain a b c where v: "inverse_clarke z = Vec3 a b c" by (cases "inverse_clarke z")
  have "a + b + c = 0" using inverse_clarke_balanced [of z] by (simp add: v)
  from assms [OF this] have "g (clarke_transform (inverse_clarke z)) = inverse_clarke z"
    by (simp add: v)
  then show ?thesis by (simp add: clarke_inverse_clarke)
qed

section \<open>C10: the recorded power draw\<close>

lemma compute_power_draw_sum:
  "compute_power_draw board motor =
     board_bus_voltage board
       * (\<Sum>i \<in> {i \<in> {0, 1, 2}. vget (actual (gate board)) i = HIGH}.
            vget (phase_currents (electrical motor)) i)"
proof -
  have "(\<Sum>i \<in> {i \<in> {0, 1, 2::nat}. vget (actual (gate board)) i = HIGH}.
            vget (phase_currents (electrical motor)) i)
        = (\<Sum>i \<in> {0, 1, 2::nat}. if vget (actual (gate board)) i = HIGH
                                  then vget (phase_currents (electrical motor)) i else 0)"
    by (simp only: sum.inter_filter [symmetric] finite.insertI finite.emptyI)
  also have "\<dots> = (if vget (actual (gate board)) 0 = HIGH
                       then vget (phase_currents (electrical motor)) 0 else 0)
                  + (if vget (actual (gate board)) 1 = HIGH
                       then vget (phase_currents (electrical motor)) 1 else 0)
                  + (if vget (actual (gate board)) 2 = HIGH
                       then vget (phase_currents (electrical motor)) 2 else 0)"
    by simp
  finally show ?thesis
    by (simp add: compute_power_draw_def algebra_simps)
qed

lemma record_phase_other_fields [simp]:
  "rb_power_draw (record_phase board motor foc next i buffers) = rb_power_draw buffers"
  "rb_ctx (record_phase board motor foc next i buffers) = rb_ctx buffers"
  "rb_timestamps (record_phase board motor foc next i buffers) = rb_timestamps buffers"
  "rb_torque (record_phase board motor foc next i buffers) = rb_torque buffers"
  "rb_rotor_angular_vel (record_phase board motor foc next i buffers) = rb_rotor_angular_vel buffers"
  by (simp_all add: record_phase_def Let_def)

lemma update_rolling_buffers_power_draw:
  "rb_power_draw (update_rolling_buffers t board motor foc buffers) =
     (rb_power_draw buffers)[next_idx (rb_ctx buffers) := compute_power_draw board motor]"
  by (simp add: update_rolling_buffers_def Let_def)

text \<open>
  C10. The sample that \<^verbatim>\<open>update_rolling_buffers\<close> writes into the power channel, at the
  write index, is the bus voltage times the sum of the phase currents over exactly the
  phases whose actual gate state is HIGH; a phase that is LOW or OFF adds nothing.
\<close>

theorem recorded_power_draw:
  assumes "next_idx (rb_ctx buffers) < length (rb_power_draw buffers)"
  shows "rb_power_draw (update_rolling_buffers t board motor foc buffers)
           ! next_idx (rb_ctx buffers) =
         board_bus_voltage board
           * (\<Sum>i \<in> {i \<in> {0, 1, 2}. vget (actual (gate board)) i = HIGH}.
                vget (phase_currents (electrical motor)) i)"
  using assms
  by (simp add: update_rolling_buffers_power_draw compute_power_draw_sum)

theorem recorded_power_draw_witness:
  "next_idx (rb_ctx (empty_buffers 2)) < length (rb_power_draw (empty_buffers 2))
   \<and> rb_power_draw (update_rolling_buffers 1 board_a motor_a foc_a (empty_buffers 2)) ! 0 = 24"
proof -
  have n: "next_idx (rb_ctx (empty_buffers 2)) = 0" "length (rb_power_draw (empty_buffers 2)) = 2"
    by (simp_all add: empty_buffers_def)
  have "{i \<in> {0, 1, 2::nat}. vget (actual (gate board_a)) i = HIGH} = {0, 1}"
    by (auto simp: board_a_def HIGH_def OFF_def)
  then have "board_bus_voltage board_a
           * (\<Sum>i \<in> {i \<in> {0, 1, 2}. vget (actual (gate board_a)) i = HIGH}.
                vget (phase_currents (electrical motor_a)) i) = 24"
    by (simp add: board_a_def motor_a_def)
  with recorded_power_draw [of "empty_buffers 2" 1 board_a motor_a foc_a] n
  show ?thesis by simp
qed

section \<open>C5: the CSV export\<close>

lemma upt_8: "[0..<8] = [0, 1, 2, 3, 4, 5, 6, 7]"
  by (simp add: upt_rec)

lemma write_columns_8:
  "write_columns cell 8 ss =
     ss @ cell 0 @ '','' @ cell 1 @ '','' @ cell 2 @ '','' @ cell 3 @ '','' @ cell 4 @ '',''
        @ cell 5 @ '','' @ cell 6 @ '','' @ cell 7"
  by (simp add: write_columns_def upt_8 Let_def)

lemma length_csv_fields: "length (csv_fields b) = 8"
  by (simp add: csv_fields_def)

lemma write_header: "write_columns (\<lambda>col. fst (csv_fields b ! col)) 8 [] @ ''\<newline>'' = csv_header"
  by (simp add: write_columns_8 csv_fields_def csv_header_def)

lemma write_row:
  "write_columns (\<lambda>col. fmt (snd (csv_fields b ! col) ! row)) 8 ss @ ''\<newline>'' = ss @ csv_row fmt b row"
  by (simp add: write_columns_8 csv_fields_def csv_row_def)

lemma fold_append_rows:
  "fold (\<lambda>row ss. ss @ f row) rows ss = ss @ concat (map f rows)"
  by (induction rows arbitrary: ss) simp_all

lemma to_csv_storage_order:
  "to_csv fmt b =
     csv_header @ concat (map (csv_row fmt b) [0..<get_rolling_buffer_count (rb_ctx b)])"
  unfolding to_csv_def Let_def length_csv_fields write_header write_row
  by (rule fold_append_rows)


lemma update_rolling_buffers_csv_channels:
  "rb_ctx (update_rolling_buffers t board motor foc b) = rolling_buffer_advance_idx (rb_ctx b)"
  "rb_timestamps (update_rolling_buffers t board motor foc b) =
     (rb_timestamps b)[next_idx (rb_ctx b) := t]"
  "rb_torque (update_rolling_buffers t board motor foc b) =
     (rb_torque b)[next_idx (rb_ctx b) := motor_torque (kinematic motor)]"
  by (simp_all add: update_rolling_buffers_def Let_def)

lemma vget_vstore:
  "vget (vstore arrays i idx x) j = (if j = i then (vget arrays i)[idx := x] else vget arrays j)"
  if "i < 3" "j < 3"
  using that by (cases arrays) (auto simp: vstore_def)

lemma record_phase_csv_channels:
  assumes "i < 3" "j < 3"
  shows "vget (rb_bEmfs (record_phase board motor foc next i b)) j =
     (if j = i then (vget (rb_bEmfs b) i)[next := vget (motor_bEmfs (electrical motor)) i]
      else vget (rb_bEmfs b) j)"
    and "vget (rb_phase_currents (record_phase board motor foc next i b)) j =
     (if j = i then (vget (rb_phase_currents b) i)[next := vget (phase_currents (electrical motor)) i]
      else vget (rb_phase_currents b) j)"
  using assms by (simp_all add: record_phase_def Let_def vget_vstore)

lemma update_rolling_buffers_phase_channels:
  assumes "j < 3"
  shows "vget (rb_bEmfs (update_rolling_buffers t board motor foc b)) j =
     (vget (rb_bEmfs b) j)[next_idx (rb_ctx b) := vget (motor_bEmfs (electrical motor)) j]"
    and "vget (rb_phase_currents (update_rolling_buffers t board motor foc b)) j =
     (vget (rb_phase_currents b) j)[next_idx (rb_ctx b) := vget (phase_currents (electrical motor)) j]"
  using less_3_cases [OF assms]
  by (auto simp: update_rolling_buffers_def Let_def record_phase_csv_channels)


lemma buffers_wrapped_channels:
  "rb_ctx buffers_wrapped = \<lparr>next_idx = 1, writes = 3, capacity = 2\<rparr>"
  "rb_timestamps buffers_wrapped = [3, 2]"
  "rb_torque buffers_wrapped = [5, 5]"
  "vget (rb_bEmfs buffers_wrapped) 0 = [0, 0]"
  "vget (rb_bEmfs buffers_wrapped) 1 = [0, 0]"
  "vget (rb_bEmfs buffers_wrapped) 2 = [0, 0]"
  "vget (rb_phase_currents buffers_wrapped) 0 = [2, 2]"
  "vget (rb_phase_currents buffers_wrapped) 1 = [- 1, - 1]"
  "vget (rb_phase_currents buffers_wrapped) 2 = [- 1, - 1]"
  by (simp_all add: buffers_wrapped_def update_rolling_buffers_csv_channels
        update_rolling_buffers_phase_channels rolling_buffer_advance_idx_def
        empty_buffers_def motor_a_def numeral_2_eq_2)

text \<open>
  C5. After three samples at the times 1, 2 and 3 into buffers of capacity 2 the valid
  entries are the samples of the times 2 and 3 and the oldest one is at index 1.
  \<^verbatim>\<open>to_csv\<close> writes the header and then the rows in the order of the array indices:
  the row of time 3 before the row of time 2.
\<close>

theorem to_csv_after_wrap:
  "get_rolling_buffer_count (rb_ctx buffers_wrapped) = 2
   \<and> get_rolling_buffer_begin (rb_ctx buffers_wrapped) = 1
   \<and> to_csv fmt buffers_wrapped =
       ''timestamp,torque,bEmf_a,bEmf_b,bEmf_c,current_a,current_b,current_c\<newline>''
       @ fmt 3 @ '','' @ fmt 5 @ '','' @ fmt 0 @ '','' @ fmt 0 @ '','' @ fmt 0 @ '',''
         @ fmt 2 @ '','' @ fmt (- 1) @ '','' @ fmt (- 1) @ ''\<newline>''
       @ fmt 2 @ '','' @ fmt 5 @ '','' @ fmt 0 @ '','' @ fmt 0 @ '','' @ fmt 0 @ '',''
         @ fmt 2 @ '','' @ fmt (- 1) @ '','' @ fmt (- 1) @ ''\<newline>''"
proof -
  have c: "get_rolling_buffer_count (rb_ctx buffers_wrapped) = 2"
    by (simp add: buffers_wrapped_channels get_rolling_buffer_count_def)
  have b: "get_rolling_buffer_begin (rb_ctx buffers_wrapped) = 1"
    by (simp add: buffers_wrapped_channels get_rolling_buffer_begin_def)
  have u: "[0..<2] = [0, 1]" by (simp add: upt_rec)
  have r0: "csv_row fmt buffers_wrapped 0 =
       fmt 3 @ '','' @ fmt 5 @ '','' @ fmt 0 @ '','' @ fmt 0 @ '','' @ fmt 0 @ '',''
         @ fmt 2 @ '','' @ fmt (- 1) @ '','' @ fmt (- 1) @ ''\<newline>''"
    unfolding csv_row_def buffers_wrapped_channels by simp
  have r1: "csv_row fmt buffers_wrapped 1 =
       fmt 2 @ '','' @ fmt 5 @ '','' @ fmt 0 @ '','' @ fmt 0 @ '','' @ fmt 0 @ '',''
         @ fmt 2 @ '','' @ fmt (- 1) @ '','' @ fmt (- 1) @ ''\<newline>''"
    unfolding csv_row_def buffers_wrapped_channels by simp
  have "to_csv fmt buffers_wrapped =
          csv_header @ csv_row fmt buffers_wrapped 0 @ csv_row fmt buffers_wrapped 1"
    by (simp add: to_csv_storage_order c u)
  then show ?thesis
    unfolding r0 r1 csv_header_def using c b by simp
qed

section \<open>C8: the generated cogging map\<close>

lemma fold_max_abs:
  "fold (\<lambda>t max_abs. max max_abs \<bar>t\<bar>) xs m = Max (insert m ((\<lambda>t. \<bar>t\<bar>) ` set xs))"
proof (induction xs arbitrary: m)
  case Nil
  show ?case by simp
next
  case (Cons x xs)
  have "Max (insert (max m \<bar>x\<bar>) ((\<lambda>t. \<bar>t\<bar>) ` set xs))
        = Max (insert m (insert \<bar>x\<bar> ((\<lambda>t. \<bar>t\<bar>) ` set xs)))"
    by (cases "xs = []") (simp_all add: max.assoc max.commute max.left_commute)
  then show ?case by (simp add: Cons.IH)
qed

lemma max_abs_of_Max: "max_abs_of xs = Max (insert 0 ((\<lambda>t. \<bar>t\<bar>) ` set xs))"
  by (simp add: max_abs_of_def fold_max_abs)

lemma max_abs_of_upper: "x \<in> set xs \<Longrightarrow> \<bar>x\<bar> \<le> max_abs_of xs"
  by (simp add: max_abs_of_Max)

lemma max_abs_of_nonneg: "0 \<le> max_abs_of xs"
  by (simp add: max_abs_of_Max)

lemma max_abs_of_attained:
  assumes "max_abs_of xs \<noteq> 0"
  shows "\<exists>x \<in> set xs. \<bar>x\<bar> = max_abs_of xs"
proof -
  have "Max (insert 0 ((\<lambda>t. \<bar>t\<bar>) ` set xs)) \<in> insert 0 ((\<lambda>t. \<bar>t\<bar>) ` set xs)"
    by (rule Max_in) simp_all
  then show ?thesis using assms by (auto simp: max_abs_of_Max)
qed

lemma rescale_bounded:
  assumes "max_abs_of xs \<noteq> 0" "y \<in> set (rescale xs)"
  shows "\<bar>y\<bar> \<le> 0.01"
proof -
  let ?m = "max_abs_of xs"
  have m: "0 < ?m" using assms(1) max_abs_of_nonneg [of xs] by simp
  from assms(2) obtain x where x: "x \<in> set xs" "y = x * (0.01 / ?m)"
    by (auto simp: rescale_def Let_def)
  have "\<bar>y\<bar> = \<bar>x\<bar> / ?m * 0.01" using m by (simp add: x(2) abs_mult)
  also have "\<dots> \<le> 1 * 0.01"
    using max_abs_of_upper [OF x(1)] m by (intro mult_right_mono) simp_all
  finally show ?thesis by simp
qed

lemma rescale_attains:
  assumes "max_abs_of xs \<noteq> 0"
  shows "\<exists>y \<in> set (rescale xs). \<bar>y\<bar> = 0.01"
proof -
  let ?m = "max_abs_of xs"
  have m: "0 < ?m" using assms max_abs_of_nonneg [of xs] by simp
  from max_abs_of_attained [OF assms] obtain x where x: "x \<in> set xs" "\<bar>x\<bar> = ?m" by blast
  have "x * (0.01 / ?m) \<in> set (rescale xs)"
    unfolding rescale_def Let_def set_map using x(1) by (rule imageI)
  moreover have "\<bar>x * (0.01 / ?m)\<bar> = 0.01"
    using m x(2) by (simp add: abs_mult)
  ultimately show ?thesis by blast
qed

lemma max_abs_of_rescale:
  assumes "max_abs_of xs \<noteq> 0"
  shows "max_abs_of (rescale xs) = 0.01"
proof -
  from rescale_attains [OF assms] obtain y where y: "y \<in> set (rescale xs)" "\<bar>y\<bar> = 0.01"
    by blast
  have "max_abs_of (rescale xs) \<le> 0.01"
    unfolding max_abs_of_Max using rescale_bounded [OF assms]
    by (subst Max_le_iff) auto
  moreover have "0.01 \<le> max_abs_of (rescale xs)"
    using max_abs_of_upper [OF y(1)] y(2) by simp
  ultimately show ?thesis by simp
qed

lemma fold_plus_sum_list: "fold (\<lambda>t energy. energy + t) xs (e::real) = e + sum_list xs"
  by (induction xs arbitrary: e) simp_all

lemma cogging_energy_sum:
  "cogging_energy xs = sum_list xs * (2 * pi / real (length xs))"
  by (simp add: cogging_energy_def fold_plus_sum_list kPI_def)


lemma length_synthesize [simp]: "length (synthesize_cogging_map draws p n) = n"
  by (simp add: synthesize_cogging_map_def)

lemma length_rescale [simp]: "length (rescale xs) = length xs"
  by (simp add: rescale_def Let_def)

text \<open>
  C8. Provided the synthesized map is not zero everywhere (otherwise the source divides
  by \<^verbatim>\<open>max_abs = 0\<close>): every entry of the generated map has magnitude at most 0.01 and
  the largest magnitude is 0.01; the map is the synthesized one times
  \<open>0.01 / max_abs\<close>, with no recentering; the check leaves any map as it is; the warning
  is printed exactly when the magnitude of \<open>(sum of the entries) * 2\<pi> / N\<close> exceeds
  \<open>10\<^sup>-\<^sup>8\<close>, and nothing is printed otherwise.
\<close>

theorem generated_cogging_map:
  assumes "max_abs_of (synthesize_cogging_map draws p n) \<noteq> 0"
  shows "(\<forall>y \<in> set (fst (generate_random_cogging_map draws p n)). \<bar>y\<bar> \<le> 0.01)
     \<and> (\<exists>y \<in> set (fst (generate_random_cogging_map draws p n)). \<bar>y\<bar> = 0.01)
     \<and> max_abs_of (fst (generate_random_cogging_map draws p n)) = 0.01
     \<and> fst (generate_random_cogging_map draws p n) =
         map (\<lambda>t. t * (0.01 / max_abs_of (synthesize_cogging_map draws p n)))
           (synthesize_cogging_map draws p n)
     \<and> fst (energy_check m) = m
     \<and> (snd (generate_random_cogging_map draws p n) =
           [''Energy conservation violated by cogging map\<newline>'']
          \<longleftrightarrow> \<bar>sum_list (fst (generate_random_cogging_map draws p n)) * (2 * pi / real n)\<bar>
                > 1 / 10 ^ 8)
     \<and> (snd (generate_random_cogging_map draws p n) = []
          \<longleftrightarrow> \<not> \<bar>sum_list (fst (generate_random_cogging_map draws p n)) * (2 * pi / real n)\<bar>
                > 1 / 10 ^ 8)"
proof -
  let ?raw = "synthesize_cogging_map draws p n"
  have f: "fst (generate_random_cogging_map draws p n) = rescale ?raw"
    by (simp add: generate_random_cogging_map_def energy_check_def)
  have e: "cogging_energy (rescale ?raw) = sum_list (rescale ?raw) * (2 * pi / real n)"
    by (simp add: cogging_energy_sum)
  have s: "snd (generate_random_cogging_map draws p n) =
        (if \<bar>sum_list (rescale ?raw) * (2 * pi / real n)\<bar> > 1 / 10 ^ 8
         then [''Energy conservation violated by cogging map\<newline>''] else [])"
    unfolding generate_random_cogging_map_def energy_check_def e by simp
  have 1: "\<forall>y \<in> set (rescale ?raw). \<bar>y\<bar> \<le> 0.01"
    using rescale_bounded [OF assms] by blast
  have 2: "\<exists>y \<in> set (rescale ?raw). \<bar>y\<bar> = 0.01"
    using assms by (rule rescale_attains)
  have 3: "max_abs_of (rescale ?raw) = 0.01"
    using assms by (rule max_abs_of_rescale)
  have 4: "rescale ?raw = map (\<lambda>t. t * (0.01 / max_abs_of ?raw)) ?raw"
    by (simp add: rescale_def Let_def)
  have 5: "fst (energy_check m) = m"
    by (simp add: energy_check_def)
  show ?thesis
    unfolding f s using 1 2 3 4 5 by simp
qed

lemma synthesize_draws_a: "synthesize_cogging_map draws_a 1 2 = [1 / 2, - (1 / 2)]"
proof -
  have u: "[0..<2] = [0, 1]" "[0..<6] = [0, 1, 2, 3, 4, 5]"
    "[0..<12] = [0, 1, 2, 3, 4, 5, 6, 7, 8, 9, 10, 11]"
    by (simp_all add: upt_rec)
  have c: "make_fourier_coeffs draws_a = [1 / 2, 0, 0, 0, 0, 0, 0, 0, 0, 0, 0, 0]"
    by (simp add: make_fourier_coeffs_def u fourier_frequencies_scale_def draws_a_def)
  show ?thesis
    by (simp add: synthesize_cogging_map_def c u cogging_sample_def fourier_frequencies_def
          Let_def kPI_def)
qed

theorem generated_cogging_map_witness:
  "max_abs_of (synthesize_cogging_map draws_a 1 2) \<noteq> 0
   \<and> generate_random_cogging_map draws_a 1 2 = ([1 / 100, - (1 / 100)], [])"
proof -
  have m: "max_abs_of (synthesize_cogging_map draws_a 1 2) = 1 / 2"
    by (simp add: synthesize_draws_a max_abs_of_def)
  then have nz: "max_abs_of (synthesize_cogging_map draws_a 1 2) \<noteq> 0" by simp
  note g = generated_cogging_map [OF nz, where m = "[]"]
  from g have "fst (generate_random_cogging_map draws_a 1 2) =
         map (\<lambda>t. t * (0.01 / max_abs_of (synthesize_cogging_map draws_a 1 2)))
           (synthesize_cogging_map draws_a 1 2)"
    by blast
  then have f: "fst (generate_random_cogging_map draws_a 1 2) = [1 / 100, - (1 / 100)]"
    unfolding m by (simp add: synthesize_draws_a)
  from g have "snd (generate_random_cogging_map draws_a 1 2) = []
          \<longleftrightarrow> \<not> \<bar>sum_list (fst (generate_random_cogging_map draws_a 1 2)) * (2 * pi / real 2)\<bar>
                > 1 / 10 ^ 8"
    by blast
  then have "snd (generate_random_cogging_map draws_a 1 2) = []"
    unfolding f by simp
  with f nz show ?thesis by (simp add: prod_eq_iff)
qed

end
